theory Spec2Isabelle
  imports Complex_Main "HOL-Library.Word" "HOL-Library.Log_Nat"
begin

section \<open>Byte buffers, DataView and typed arrays\<close>

text \<open>
  The scanner reads advertisement payloads through the JavaScript \<open>DataView\<close> interface.
  A view is a window of \<open>byteLength\<close> bytes, starting at \<open>byteOffset\<close>, onto an
  \<open>ArrayBuffer\<close>. Every accessor raises \<open>RangeError\<close> when it would read outside the
  window; the model returns \<open>Inl RangeError\<close> there, so each raise of the program is a
  branch of the model.
\<close>

type_synonym byte = "8 word"

datatype error = RangeError

record dataview =
  buffer :: "byte list"
  byteOffset :: nat
  byteLength :: nat

text \<open>
  The runtime only builds views that lie inside their buffer (the constructor raises
  otherwise), so every view a handler receives satisfies \<open>wf_view\<close>.
\<close>

definition wf_view :: "dataview \<Rightarrow> bool" where
  "wf_view d = (byteOffset d + byteLength d \<le> length (buffer d))"

text \<open>A view that covers a buffer of its own, as the platform delivers payloads.\<close>

definition view_of :: "byte list \<Rightarrow> dataview" where
  "view_of bs = \<lparr>buffer = bs, byteOffset = 0, byteLength = length bs\<rparr>"

text \<open>The bytes a view shows, and the bytes from its start to the end of its buffer.\<close>

definition payload :: "dataview \<Rightarrow> byte list" where
  "payload d = take (byteLength d) (drop (byteOffset d) (buffer d))"

definition toBufferEnd :: "dataview \<Rightarrow> byte list" where
  "toBufferEnd d = drop (byteOffset d) (buffer d)"

definition bindE :: "error + 'a \<Rightarrow> ('a \<Rightarrow> error + 'b) \<Rightarrow> error + 'b" where
  "bindE m f = (case m of Inl e \<Rightarrow> Inl e | Inr v \<Rightarrow> f v)"

text \<open>\<^verbatim>\<open>new DataView(buffer, byteOffset)\<close>: without a length the view runs to the end of the buffer.\<close>

definition DataView_new :: "byte list \<Rightarrow> nat \<Rightarrow> error + dataview" where
  "DataView_new buf off =
     (if off \<le> length buf
      then Inr \<lparr>buffer = buf, byteOffset = off, byteLength = length buf - off\<rparr>
      else Inl RangeError)"

text \<open>\<^verbatim>\<open>new Uint8Array(buffer, byteOffset, length)\<close>.\<close>

definition Uint8Array_new :: "byte list \<Rightarrow> nat \<Rightarrow> nat \<Rightarrow> error + byte list" where
  "Uint8Array_new buf off len =
     (if off + len \<le> length buf then Inr (take len (drop off buf)) else Inl RangeError)"

definition byteAt :: "dataview \<Rightarrow> nat \<Rightarrow> byte" where
  "byteAt dv i = buffer dv ! (byteOffset dv + i)"

definition getUint8 :: "dataview \<Rightarrow> nat \<Rightarrow> error + nat" where
  "getUint8 dv i =
     (if i + 1 \<le> byteLength dv then Inr (unat (byteAt dv i)) else Inl RangeError)"

definition getInt8 :: "dataview \<Rightarrow> nat \<Rightarrow> error + int" where
  "getInt8 dv i =
     (if i + 1 \<le> byteLength dv then Inr (sint (byteAt dv i)) else Inl RangeError)"

text \<open>The program always passes \<open>littleEndian = false\<close>: the multi-byte reads are big-endian.\<close>

definition getUint16 :: "dataview \<Rightarrow> nat \<Rightarrow> error + nat" where
  "getUint16 dv i =
     (if i + 2 \<le> byteLength dv
      then Inr (256 * unat (byteAt dv i) + unat (byteAt dv (i + 1)))
      else Inl RangeError)"

definition getInt16 :: "dataview \<Rightarrow> nat \<Rightarrow> error + int" where
  "getInt16 dv i =
     (if i + 2 \<le> byteLength dv
      then (let u = 256 * unat (byteAt dv i) + unat (byteAt dv (i + 1))
            in Inr (if u < 32768 then int u else int u - 65536))
      else Inl RangeError)"

definition getUint32 :: "dataview \<Rightarrow> nat \<Rightarrow> error + nat" where
  "getUint32 dv i =
     (if i + 4 \<le> byteLength dv
      then Inr (((unat (byteAt dv i) * 256 + unat (byteAt dv (i + 1))) * 256
                  + unat (byteAt dv (i + 2))) * 256 + unat (byteAt dv (i + 3)))
      else Inl RangeError)"

section \<open>Strings\<close>

text \<open>
  A JavaScript string is a sequence of code units. Every code unit this program produces is
  below 256, so a string is a \<open>char list\<close> whose characters carry the code units.
\<close>

definition hexDigit :: "nat \<Rightarrow> char" where
  "hexDigit n = ''0123456789abcdef'' ! n"

text \<open>\<^verbatim>\<open>n.toString(16)\<close> for a non-negative integer.\<close>

fun toString16 :: "nat \<Rightarrow> string" where
  "toString16 n =
     (if n < 16 then [hexDigit n] else toString16 (n div 16) @ [hexDigit (n mod 16)])"

declare toString16.simps [simp del]

text \<open>\<^verbatim>\<open>s.padStart(2, '0')\<close>.\<close>

definition padStart2 :: "string \<Rightarrow> string" where
  "padStart2 s = replicate (2 - length s) (CHR ''0'') @ s"

text \<open>\<^verbatim>\<open>s.slice(a, b)\<close> for \<open>0 \<le> a \<le> b\<close>.\<close>

definition slice :: "string \<Rightarrow> nat \<Rightarrow> nat \<Rightarrow> string" where
  "slice s a b = take (b - a) (drop a s)"

text \<open>\<^verbatim>\<open>s.toUpperCase()\<close> on the letters \<open>a\<close> to \<open>z\<close>; other code units below 128 are kept.\<close>

definition upperChar :: "char \<Rightarrow> char" where
  "upperChar c =
     (let n = (of_char c :: nat) in if 97 \<le> n \<and> n \<le> 122 then char_of (n - 32) else c)"

definition toUpperCase :: "string \<Rightarrow> string" where
  "toUpperCase s = map upperChar s"

text \<open>\<^verbatim>\<open>Array.from(bytes, byte => byte.toString(16).padStart(2, '0')).join('')\<close>.\<close>

definition hexJoin :: "byte list \<Rightarrow> string" where
  "hexJoin bytes = concat (map (\<lambda>b. padStart2 (toString16 (unat b))) bytes)"

definition bytesToUuid :: "byte list \<Rightarrow> string" where
  "bytesToUuid bytes =
     (let hex = hexJoin bytes
      in toUpperCase (slice hex 0 8 @ ''-'' @ slice hex 8 12 @ ''-'' @ slice hex 12 16
                       @ ''-'' @ slice hex 16 20 @ ''-'' @ slice hex 20 32))"

text \<open>
  \<open>bytesToHex\<close> is only ever called with a \<open>Uint8Array\<close>; its \<open>DataView\<close> and \<open>N/A\<close>
  branches are not reached.
\<close>

definition bytesToHex :: "byte list \<Rightarrow> string" where
  "bytesToHex bytes = toUpperCase (hexJoin bytes)"

text \<open>\<^verbatim>\<open>String.fromCharCode(code)\<close> for a byte value.\<close>

definition fromCharCode :: "nat \<Rightarrow> string" where
  "fromCharCode code = [char_of code]"

section \<open>Numbers\<close>

text \<open>
  A JavaScript number is an IEEE 754 binary64 value. The model keeps the exact rational
  value of the double and rounds after every arithmetic operation: \<open>fl\<close> is rounding to the
  nearest double, ties to even, with the fixed quantum \<open>2 powi (- 1074)\<close> below
  \<open>2 powi (- 1022)\<close>. Overflow to infinity, NaN and the negative zero do not arise in this
  program: every number it computes is a byte-derived integer below \<open>2 ^ 32\<close> times or
  divided by a positive constant.
\<close>

type_synonym number = rat

definition roundTiesToEven :: "rat \<Rightarrow> int" where
  "roundTiesToEven y =
     (let f = \<lfloor>y\<rfloor>; d = y - of_int f
      in if d < 1 / 2 then f else if 1 / 2 < d then f + 1 else if even f then f else f + 1)"

text \<open>For \<open>x > 0\<close>, the integer \<open>e\<close> with \<open>2 powi e \<le> x < 2 powi (e + 1)\<close>.\<close>

definition exponent :: "rat \<Rightarrow> int" where
  "exponent x =
     (if 1 \<le> x then int (floorlog 2 (nat \<lfloor>x\<rfloor>)) - 1
      else - int (floorlog 2 (nat (\<lceil>1 / x\<rceil> - 1))))"

definition fl :: "rat \<Rightarrow> number" where
  "fl x =
     (if x = 0 then 0
      else let q = 2 powi (max (exponent \<bar>x\<bar>) (- 1022) - 52)
           in of_int (roundTiesToEven (x / q)) * q)"

definition fadd :: "number \<Rightarrow> number \<Rightarrow> number" where
  "fadd a b = fl (a + b)"

definition fmul :: "number \<Rightarrow> number \<Rightarrow> number" where
  "fmul a b = fl (a * b)"

text \<open>Division by a non-zero number (the program divides by the literals 256, 100 and 10).\<close>

definition fdiv :: "number \<Rightarrow> number \<Rightarrow> number" where
  "fdiv a b = fl (a / b)"

text \<open>The literals \<^verbatim>\<open>0.005\<close> and \<^verbatim>\<open>0.0025\<close>: the doubles nearest to the decimal fractions.\<close>

definition lit_0_005 :: number where
  "lit_0_005 = fl (5 / 1000)"

definition lit_0_0025 :: number where
  "lit_0_0025 = fl (25 / 10000)"

definition digitChar :: "nat \<Rightarrow> char" where
  "digitChar n = ''0123456789'' ! n"

fun decimal :: "nat \<Rightarrow> string" where
  "decimal n = (if n < 10 then [digitChar n] else decimal (n div 10) @ [digitChar (n mod 10)])"

declare decimal.simps [simp del]

text \<open>
  \<^verbatim>\<open>x.toFixed(f)\<close> as ECMAScript defines it, on the exact value of the double, for
  \<open>\<bar>x\<bar> < 10 ^ 21\<close> (beyond that the runtime switches to exponent notation, which no
  number of this program reaches): split off the sign, take the integer \<open>n\<close> for which
  \<open>n / 10 ^ f\<close> is nearest to \<open>\<bar>x\<bar>\<close> (the larger one on a tie), print \<open>n\<close> in decimal,
  and, in \<open>withPoint\<close>, pad with zeros to \<open>f + 1\<close> digits and put the point before the
  last \<open>f\<close> digits.
\<close>

definition withPoint :: "nat \<Rightarrow> string \<Rightarrow> string" where
  "withPoint f m =
     (if f \<noteq> 0
      then (let m0 = (if length m \<le> f then replicate (f + 1 - length m) (CHR ''0'') @ m
                      else m);
                k = length m0
            in take (k - f) m0 @ ''.'' @ drop (k - f) m0)
      else m)"

definition toFixed :: "nat \<Rightarrow> number \<Rightarrow> string" where
  "toFixed f x =
     (let s = (if x < 0 then ''-'' else []);
          n = nat \<lfloor>\<bar>x\<bar> * 10 ^ f + 1 / 2\<rfloor>;
          m = decimal n
      in s @ withPoint f m)"

section \<open>Decoded beacons\<close>

text \<open>
  The decoders return object literals tagged by a \<open>type\<close> string; the model has one
  constructor per shape and \<open>beaconType\<close> gives the tag.
\<close>

datatype beacon =
    IBeacon string nat nat
  | EddystoneUID string string
  | EddystoneURL string
  | EddystoneTLM nat string nat string
  | RuuviTag string string string nat
  | GattService string

fun beaconType :: "beacon \<Rightarrow> string" where
  "beaconType (IBeacon uuid major minor) = ''iBeacon''"
| "beaconType (EddystoneUID namespace instance) = ''Eddystone-UID''"
| "beaconType (EddystoneURL url) = ''Eddystone-URL''"
| "beaconType (EddystoneTLM battery temperature packets uptime) = ''Eddystone-TLM''"
| "beaconType (RuuviTag temperature humidity pressure battery) = ''RuuviTag Sensor''"
| "beaconType (GattService name) = ''GATT-Dienst''"

section \<open>Format decoders\<close>

text \<open>
  The repository holds three revisions of the script. Functions whose text is the same in
  all of them are modelled once. Where the revisions differ, the current revision (the
  second listing of \<open>script.js\<close>) has the plain name, the first listing of \<open>script.js\<close>
  has the suffix \<open>_v1\<close> and the intermediate revision the suffix \<open>_v2\<close>.
\<close>

subsection \<open>iBeacon\<close>

definition parseIBeacon :: "dataview \<Rightarrow> error + beacon" where
  "parseIBeacon data =
     bindE (DataView_new (buffer data) (byteOffset data)) (\<lambda>dv.
     bindE (Uint8Array_new (buffer dv) (byteOffset dv + 2) 16) (\<lambda>uuidBytes.
     let uuid = bytesToUuid uuidBytes in
     bindE (getUint16 dv 18) (\<lambda>major.
     bindE (getUint16 dv 20) (\<lambda>minor.
     Inr (IBeacon uuid major minor)))))"

subsection \<open>Eddystone URL\<close>

definition schemes :: "string list" where
  "schemes = [''http://www.'', ''https://www.'', ''http://'', ''https://'']"

definition expansions_v1 :: "string list" where
  "expansions_v1 =
     [''.com/'', ''.org/'', ''.edu/'', ''.net/'', ''.info/'', ''.biz/'', ''.gov/'',
      ''.com'', ''.org'', ''.edu'', ''.net'', ''.info'', ''.biz'', ''.gov'']"

definition expansions :: "string list" where
  "expansions =
     [''.com/'', ''.org/'', ''.edu/'', ''.net/'', ''.info/'', ''.biz/'', ''.gov/'',
      ''.com'', ''.org'', ''.edu'', ''.net/'', ''.info/'', ''.biz/'', ''.gov/'']"

text \<open>
  The loop \<^verbatim>\<open>for (let i = 3; i < dataView.byteLength; i++)\<close>, with the expansion table as
  a parameter: the revisions differ in the table only.
\<close>

function urlLoop :: "string list \<Rightarrow> dataview \<Rightarrow> nat \<Rightarrow> string \<Rightarrow> error + string" where
  "urlLoop table dv i url =
     (if i < byteLength dv
      then bindE (getUint8 dv i) (\<lambda>code.
             urlLoop table dv (i + 1)
               (url @ (if code < length table then table ! code else fromCharCode code)))
      else Inr url)"
  by pat_completeness auto
termination
  by (relation "measure (\<lambda>(table, dv, i, url). byteLength dv - i)") auto

declare urlLoop.simps [simp del]

definition decodeUrlWith :: "string list \<Rightarrow> dataview \<Rightarrow> error + string" where
  "decodeUrlWith table dataView =
     bindE (getUint8 dataView 2) (\<lambda>schemeCode.
     let url = (if schemeCode < length schemes then schemes ! schemeCode else [])
     in urlLoop table dataView 3 url)"

definition decodeEddystoneUrl_v1 :: "dataview \<Rightarrow> error + string" where
  "decodeEddystoneUrl_v1 = decodeUrlWith expansions_v1"

definition decodeEddystoneUrl :: "dataview \<Rightarrow> error + string" where
  "decodeEddystoneUrl = decodeUrlWith expansions"

subsection \<open>Eddystone frames\<close>

text \<open>First revision: only the URL frame, and no length check at all.\<close>

definition parseEddystone_v1 :: "dataview \<Rightarrow> error + beacon option" where
  "parseEddystone_v1 data =
     bindE (DataView_new (buffer data) (byteOffset data)) (\<lambda>dv.
     bindE (getUint8 dv 0) (\<lambda>frameType.
     if frameType = 0x10
     then bindE (decodeEddystoneUrl_v1 dv) (\<lambda>url. Inr (Some (EddystoneURL url)))
     else Inr None))"

text \<open>The \<^verbatim>\<open>switch (frameType)\<close> of the later revisions, the same text in both.\<close>

definition eddystoneFrame :: "dataview \<Rightarrow> dataview \<Rightarrow> nat \<Rightarrow> error + beacon option" where
  "eddystoneFrame data dv frameType =
     (if frameType = 0x00 then
        (if byteLength data < 18 then Inr None
         else bindE (Uint8Array_new (buffer dv) (byteOffset dv + 2) 10) (\<lambda>namespaceBytes.
              bindE (Uint8Array_new (buffer dv) (byteOffset dv + 12) 6) (\<lambda>instanceBytes.
              Inr (Some (EddystoneUID (bytesToHex namespaceBytes) (bytesToHex instanceBytes))))))
      else if frameType = 0x10 then
        (if byteLength data < 4 then Inr None
         else bindE (decodeEddystoneUrl dv) (\<lambda>url. Inr (Some (EddystoneURL url))))
      else if frameType = 0x20 then
        (if byteLength data < 14 then Inr None
         else bindE (getUint16 dv 2) (\<lambda>battery.
              bindE (getInt8 dv 4) (\<lambda>tempInt.
              bindE (getUint8 dv 5) (\<lambda>tempFrac.
              let temperature = fadd (of_int tempInt) (fdiv (of_nat tempFrac) 256) in
              bindE (getUint32 dv 6) (\<lambda>packets.
              bindE (getUint32 dv 10) (\<lambda>ticks.
              let uptime = fdiv (of_nat ticks) 10 in
              Inr (Some (EddystoneTLM battery (toFixed 2 temperature) packets
                           (toFixed 1 uptime)))))))))
      else Inr None)"

definition parseEddystone_v2 :: "dataview \<Rightarrow> error + beacon option" where
  "parseEddystone_v2 data =
     bindE (DataView_new (buffer data) (byteOffset data)) (\<lambda>dv.
     bindE (getUint8 dv 0) (\<lambda>frameType.
     eddystoneFrame data dv frameType))"

definition parseEddystone :: "dataview \<Rightarrow> error + beacon option" where
  "parseEddystone data =
     bindE (DataView_new (buffer data) (byteOffset data)) (\<lambda>dv.
     if byteLength dv = 0 then Inr None
     else bindE (getUint8 dv 0) (\<lambda>frameType.
          eddystoneFrame data dv frameType))"

subsection \<open>RuuviTag RAWv2\<close>

text \<open>
  \<^verbatim>\<open>batteryInfo >> 5\<close> works on the 32-bit integer value of the number; for a value below
  \<open>2 ^ 16\<close> that is the number itself.
\<close>

definition parseRuuviTag :: "dataview \<Rightarrow> error + beacon option" where
  "parseRuuviTag data =
     bindE (DataView_new (buffer data) (byteOffset data)) (\<lambda>dv.
     bindE (getUint8 dv 0) (\<lambda>format.
     if format = 0x05 then
       (if byteLength data < 24 then Inr None
        else bindE (getInt16 dv 1) (\<lambda>rawTemp.
             let temp = fmul (of_int rawTemp) lit_0_005 in
             bindE (getUint16 dv 3) (\<lambda>rawHumidity.
             let humidity = fmul (of_nat rawHumidity) lit_0_0025 in
             bindE (getUint16 dv 5) (\<lambda>rawPressure.
             let pressure = fdiv (fadd (of_nat rawPressure) 50000) 100 in
             bindE (getUint16 dv 7) (\<lambda>batteryInfo.
             let battery = drop_bit 5 batteryInfo + 1600 in
             Inr (Some (RuuviTag (toFixed 2 temp) (toFixed 2 humidity) (toFixed 2 pressure)
                          battery)))))))
     else Inr None))"

section \<open>Advertisement handling\<close>

text \<open>
  An advertisement event carries the device identifier, the signal strength and the two
  payload maps, keyed by company and service identifier. The lines that the handler writes
  to the debug log and the styling of the cards are not modelled.
\<close>

record event =
  deviceId :: string
  rssi :: int
  manufacturerData :: "nat \<rightharpoonup> dataview"
  serviceData :: "nat \<rightharpoonup> dataview"

text \<open>
  A card is the DOM element built by \<open>createBeaconCard\<close>: it shows the decoded beacon, the
  signal strength and the device identifier. \<open>updateBeaconCardRSSI\<close> rewrites the text of
  the signal-strength span, which every card built by \<open>createBeaconCard\<close> has.
\<close>

record card =
  cardBeacon :: beacon
  cardRssi :: int
  cardDeviceId :: string

definition createBeaconCard :: "beacon \<Rightarrow> int \<Rightarrow> string \<Rightarrow> card" where
  "createBeaconCard beaconData r devId =
     \<lparr>cardBeacon = beaconData, cardRssi = r, cardDeviceId = devId\<rparr>"

definition updateBeaconCardRSSI :: "card \<Rightarrow> int \<Rightarrow> card" where
  "updateBeaconCardRSSI cardElement r = cardElement\<lparr>cardRssi := r\<rparr>"

text \<open>
  The global state: the map \<open>discoveredDevices\<close> from device identifier to its entry, and
  the children of \<open>resultsDiv\<close>, newest first. An entry owns its card; \<open>resultsDiv\<close> lists
  the cards by the device identifier they carry.
\<close>

record entry =
  device :: string
  cardElement :: card
  type :: string

record state =
  discoveredDevices :: "string \<rightharpoonup> entry"
  resultsDiv :: "string list"

definition initial :: state where
  "initial = \<lparr>discoveredDevices = Map.empty, resultsDiv = []\<rparr>"

text \<open>
  The guard of the iBeacon branch:
  \<^verbatim>\<open>data.byteLength >= 23 && data.getUint8(0) === 0x02 && data.getUint8(1) === 0x15\<close>,
  evaluated left to right and cut short at the first false conjunct.
\<close>

definition isIBeacon :: "dataview \<Rightarrow> error + bool" where
  "isIBeacon data =
     (if 23 \<le> byteLength data
      then bindE (getUint8 data 0) (\<lambda>b0.
           if b0 = 0x02 then bindE (getUint8 data 1) (\<lambda>b1. Inr (b1 = 0x15)) else Inr False)
      else Inr False)"

text \<open>
  The first half of \<open>handleAdvertisement\<close>: the value of \<open>beaconData\<close> when the chain of
  \<open>if\<close> / \<open>else if\<close> is done (\<open>None\<close> for \<open>null\<close>).
\<close>

definition classify_v1 :: "event \<Rightarrow> error + beacon option" where
  "classify_v1 ev =
     (case manufacturerData ev 0x004C of
        Some data \<Rightarrow>
          bindE (isIBeacon data) (\<lambda>ok.
          if ok then bindE (parseIBeacon data) (\<lambda>b. Inr (Some b)) else Inr None)
      | None \<Rightarrow>
          (case serviceData ev 0xfeaa of
             Some data \<Rightarrow> parseEddystone_v1 data
           | None \<Rightarrow> Inr None))"

definition classify_v2 :: "event \<Rightarrow> error + beacon option" where
  "classify_v2 ev =
     (case manufacturerData ev 0x004C of
        Some data \<Rightarrow>
          bindE (isIBeacon data) (\<lambda>ok.
          if ok then bindE (parseIBeacon data) (\<lambda>b. Inr (Some b)) else Inr None)
      | None \<Rightarrow>
          (case serviceData ev 0xfeaa of
             Some data \<Rightarrow> parseEddystone_v2 data
           | None \<Rightarrow> Inr None))"

definition classify :: "event \<Rightarrow> error + beacon option" where
  "classify ev =
     (case manufacturerData ev 0x004C of
        Some data \<Rightarrow>
          bindE (isIBeacon data) (\<lambda>ok.
          if ok then bindE (parseIBeacon data) (\<lambda>b. Inr (Some b)) else Inr None)
      | None \<Rightarrow>
          (case serviceData ev 0xfeaa of
             Some data \<Rightarrow> parseEddystone data
           | None \<Rightarrow>
               (case manufacturerData ev 0x0499 of
                  Some data \<Rightarrow> parseRuuviTag data
                | None \<Rightarrow>
                    (if serviceData ev 0x180F \<noteq> None
                     then Inr (Some (GattService ''Batteriedienst (0x180F)''))
                     else if serviceData ev 0x181A \<noteq> None
                     then Inr (Some (GattService ''Umgebungssensor (0x181A)''))
                     else if serviceData ev 0x180D \<noteq> None
                     then Inr (Some (GattService ''Herzfrequenzmesser (0x180D)''))
                     else Inr None))))"

text \<open>
  The second half, the same text in the three revisions: \<open>isNew\<close> is
  \<^verbatim>\<open>!discoveredDevices.has(deviceId)\<close>, read before the classification, and \<open>existing\<close> is
  \<^verbatim>\<open>discoveredDevices.get(deviceId)\<close>; nothing writes the map in between.
\<close>

definition updateUI :: "state \<Rightarrow> event \<Rightarrow> beacon \<Rightarrow> state" where
  "updateUI s ev beaconData =
     (case discoveredDevices s (deviceId ev) of
        None \<Rightarrow>
          (let cardElement = createBeaconCard beaconData (rssi ev) (deviceId ev)
           in s\<lparr>resultsDiv := deviceId ev # resultsDiv s,
                 discoveredDevices := (discoveredDevices s)(deviceId ev \<mapsto>
                   \<lparr>device = deviceId ev, cardElement = cardElement,
                    type = beaconType beaconData\<rparr>)\<rparr>)
      | Some existing \<Rightarrow>
          s\<lparr>discoveredDevices := (discoveredDevices s)(deviceId ev \<mapsto>
               existing\<lparr>cardElement := updateBeaconCardRSSI (cardElement existing) (rssi ev)\<rparr>)\<rparr>)"

definition handleAdvertisement_v1 :: "state \<Rightarrow> event \<Rightarrow> error + state" where
  "handleAdvertisement_v1 s ev =
     bindE (classify_v1 ev) (\<lambda>beaconData.
     case beaconData of
       None \<Rightarrow> Inr s
     | Some b \<Rightarrow> Inr (updateUI s ev b))"

text \<open>
  The intermediate revision decodes the Eddystone payload a second time when nothing was
  classified, only to write a log line; the decoder can still raise there.
\<close>

definition handleAdvertisement_v2 :: "state \<Rightarrow> event \<Rightarrow> error + state" where
  "handleAdvertisement_v2 s ev =
     bindE (classify_v2 ev) (\<lambda>beaconData.
     case beaconData of
       None \<Rightarrow>
         (case serviceData ev 0xfeaa of
            Some data \<Rightarrow> bindE (parseEddystone_v2 data) (\<lambda>tlmData. Inr s)
          | None \<Rightarrow> Inr s)
     | Some b \<Rightarrow> Inr (updateUI s ev b))"

definition handleAdvertisement :: "state \<Rightarrow> event \<Rightarrow> error + state" where
  "handleAdvertisement s ev =
     bindE (classify ev) (\<lambda>beaconData.
     case beaconData of
       None \<Rightarrow> Inr s
     | Some b \<Rightarrow> Inr (updateUI s ev b))"

text \<open>
  A scanning session delivers the events one at a time. An exception that leaves a handler
  is reported by the event dispatcher and the next event is delivered; the handler has
  written nothing before it raises, so the state is the one before the event.
\<close>

definition deliver :: "(state \<Rightarrow> event \<Rightarrow> error + state) \<Rightarrow> state \<Rightarrow> event \<Rightarrow> state" where
  "deliver handler s ev = (case handler s ev of Inl e \<Rightarrow> s | Inr s' \<Rightarrow> s')"

definition session :: "(state \<Rightarrow> event \<Rightarrow> error + state) \<Rightarrow> event list \<Rightarrow> state" where
  "session handler evs = foldl (deliver handler) initial evs"

text \<open>The three revisions: each handler with the classification it starts with.\<close>

definition revisions ::
  "((state \<Rightarrow> event \<Rightarrow> error + state) \<times> (event \<Rightarrow> error + beacon option)) list" where
  "revisions =
     [(handleAdvertisement, classify),
      (handleAdvertisement_v2, classify_v2),
      (handleAdvertisement_v1, classify_v1)]"

section \<open>The specification's wording\<close>

text \<open>
  The functions of this section are not taken from the code. They state what the
  specification promises, in its own terms, and the theorems compare the code with them.
\<close>

text \<open>
  The fall-back services in their fixed priority, and the announcement for the first one
  whose key the service data holds.
\<close>

definition gattPriority :: "(nat \<times> string) list" where
  "gattPriority =
     [(0x180F, ''Batteriedienst (0x180F)''),
      (0x181A, ''Umgebungssensor (0x181A)''),
      (0x180D, ''Herzfrequenzmesser (0x180D)'')]"

definition firstAnnounced :: "event \<Rightarrow> beacon option" where
  "firstAnnounced ev =
     map_option (\<lambda>(key, label). GattService label)
       (find (\<lambda>(key, label). serviceData ev key \<noteq> None) gattPriority)"

text \<open>An iBeacon payload: at least 23 bytes that start with \<open>0x02, 0x15\<close>.\<close>

definition hasIBeaconPrefix :: "dataview \<Rightarrow> bool" where
  "hasIBeaconPrefix data =
     (23 \<le> byteLength data \<and> payload data ! 0 = 0x02 \<and> payload data ! 1 = 0x15)"

text \<open>A classification that produced a beacon: neither an exception nor \<open>null\<close>.\<close>

definition successful :: "error + beacon option \<Rightarrow> bool" where
  "successful r = (case r of Inr (Some b) \<Rightarrow> True | _ \<Rightarrow> False)"

text \<open>The device identifiers that a list of events classified successfully.\<close>

definition classifiedIds :: "(event \<Rightarrow> error + beacon option) \<Rightarrow> event list \<Rightarrow> string set" where
  "classifiedIds classifier evs = deviceId ` {ev \<in> set evs. successful (classifier ev)}"

text \<open>
  The URL codec: the prefix a scheme code stands for (nothing for a code outside 0 to 3),
  and the text of the bytes after it, each either an entry of the expansion table or,
  from the table's length on, the one character with the byte's code.
\<close>

definition schemePrefix :: "byte \<Rightarrow> string" where
  "schemePrefix c =
     (if c = 0 then ''http://www.''
      else if c = 1 then ''https://www.''
      else if c = 2 then ''http://''
      else if c = 3 then ''https://''
      else [])"

definition urlPiece :: "string list \<Rightarrow> byte \<Rightarrow> string" where
  "urlPiece table c = (if unat c < length table then table ! unat c else [char_of (unat c)])"

definition urlBody :: "string list \<Rightarrow> byte list \<Rightarrow> string" where
  "urlBody table bytes = concat (map (urlPiece table) bytes)"

text \<open>Big-endian unsigned integers, and the two's-complement reading of 16 bits.\<close>

definition be16 :: "byte \<Rightarrow> byte \<Rightarrow> nat" where
  "be16 hi lo = 256 * unat hi + unat lo"

definition be32 :: "byte \<Rightarrow> byte \<Rightarrow> byte \<Rightarrow> byte \<Rightarrow> nat" where
  "be32 b0 b1 b2 b3 = 16777216 * unat b0 + 65536 * unat b1 + 256 * unat b2 + unat b3"

definition signed16 :: "nat \<Rightarrow> int" where
  "signed16 u = (if u < 32768 then int u else int u - 65536)"

text \<open>
  Upper-case hexadecimal, two digits for each byte, and the grouping 8-4-4-4-12 of the
  32 digits of a 16-byte identifier.
\<close>

definition upperHexDigit :: "nat \<Rightarrow> char" where
  "upperHexDigit n = ''0123456789ABCDEF'' ! n"

definition hexUpper :: "byte \<Rightarrow> string" where
  "hexUpper b = [upperHexDigit (unat b div 16), upperHexDigit (unat b mod 16)]"

definition hexString :: "byte list \<Rightarrow> string" where
  "hexString bytes = concat (map hexUpper bytes)"

definition uuidString :: "byte list \<Rightarrow> string" where
  "uuidString bytes =
     hexString (take 4 bytes) @ ''-'' @ hexString (take 2 (drop 4 bytes)) @ ''-''
     @ hexString (take 2 (drop 6 bytes)) @ ''-'' @ hexString (take 2 (drop 8 bytes)) @ ''-''
     @ hexString (take 6 (drop 10 bytes))"

text \<open>
  The iBeacon record of a payload: the identifier of bytes 2 to 17, the big-endian major at
  byte 18 and the big-endian minor at byte 20.
\<close>

definition iBeaconOf :: "byte list \<Rightarrow> beacon" where
  "iBeaconOf p =
     IBeacon (uuidString (take 16 (drop 2 p))) (be16 (p ! 18) (p ! 19)) (be16 (p ! 20) (p ! 21))"

text \<open>
  A number of tenths, and a number of hundredths, written as a decimal fraction: the
  integer part, the point, and one or two digits.
\<close>

definition fixed1 :: "nat \<Rightarrow> string" where
  "fixed1 n = decimal (n div 10) @ ''.'' @ [digitChar (n mod 10)]"

definition fixed2 :: "nat \<Rightarrow> string" where
  "fixed2 n = decimal (n div 100) @ ''.'' @ [digitChar (n div 10 mod 10), digitChar (n mod 10)]"

text \<open>
  The telemetry record of a payload. The temperature is the exact sum of the signed byte
  at offset 4 and the 256th part of the byte at offset 5, rounded to hundredths; the
  uptime is the big-endian count of tenths of a second at offset 10.
\<close>

definition tlmOf :: "byte list \<Rightarrow> beacon" where
  "tlmOf p =
     EddystoneTLM (be16 (p ! 2) (p ! 3))
       (toFixed 2 (of_int (sint (p ! 4)) + of_nat (unat (p ! 5)) / 256))
       (be32 (p ! 6) (p ! 7) (p ! 8) (p ! 9))
       (fixed1 (be32 (p ! 10) (p ! 11) (p ! 12) (p ! 13)))"

text \<open>
  The RuuviTag record of a payload. Temperature and humidity are the products that the
  program computes in floating point, formatted to two decimal places; the pressure is
  the count of bytes 5 and 6 plus 50000, in hundredths; the battery voltage drops the low
  five bits of bytes 7 and 8 and adds 1600.
\<close>

definition ruuviOf :: "byte list \<Rightarrow> beacon" where
  "ruuviOf p =
     RuuviTag (toFixed 2 (fmul (of_int (signed16 (be16 (p ! 1) (p ! 2)))) lit_0_005))
       (toFixed 2 (fmul (of_nat (be16 (p ! 3) (p ! 4))) lit_0_0025))
       (fixed2 (be16 (p ! 5) (p ! 6) + 50000))
       (be16 (p ! 7) (p ! 8) div 32 + 1600)"

section \<open>Inputs used below\<close>

definition emptyRuuviPacket :: event where
  "emptyRuuviPacket =
     \<lparr>deviceId = ''tag'', rssi = - 70,
      manufacturerData = [0x0499 \<mapsto> view_of []], serviceData = Map.empty\<rparr>"

definition emptyEddystonePacket :: event where
  "emptyEddystonePacket =
     \<lparr>deviceId = ''eddy'', rssi = - 70,
      manufacturerData = Map.empty, serviceData = [0xfeaa \<mapsto> view_of []]\<rparr>"

text \<open>The Eddystone-URL payload of Example 2: scheme 0, \<open>example\<close>, expansion 0.\<close>

definition example2 :: "byte list" where
  "example2 = [0x10, 0x00, 0x00, 0x65, 0x78, 0x61, 0x6D, 0x70, 0x6C, 0x65, 0x00]"

text \<open>
  An advertisement with Apple manufacturer data that is no iBeacon (five bytes) and the
  Eddystone-URL payload of Example 2 as service data.
\<close>

definition appleEddystonePacket :: event where
  "appleEddystonePacket =
     \<lparr>deviceId = ''mixed'', rssi = - 58,
      manufacturerData = [0x004C \<mapsto> view_of [0x12, 0x19, 0x00, 0x01, 0x02]],
      serviceData = [0xfeaa \<mapsto> view_of example2]\<rparr>"

text \<open>An advertisement that names two of the fall-back services and nothing else.\<close>

definition twoServicesPacket :: event where
  "twoServicesPacket =
     \<lparr>deviceId = ''band'', rssi = - 81,
      manufacturerData = Map.empty,
      serviceData = [0x180D \<mapsto> view_of [0x06, 0x48], 0x181A \<mapsto> view_of []]\<rparr>"

text \<open>
  An advertisement with Apple manufacturer data that is no iBeacon (five bytes) and the
  battery service among its service data.
\<close>

definition appleBatteryPacket :: event where
  "appleBatteryPacket =
     \<lparr>deviceId = ''phone'', rssi = - 63,
      manufacturerData = [0x004C \<mapsto> view_of [0x12, 0x19, 0x00, 0x01, 0x02]],
      serviceData = [0x180F \<mapsto> view_of [0x64]]\<rparr>"

text \<open>
  Two advertisements of one device: the first names the battery service, the second
  carries the Eddystone-URL payload of Example 2 at another signal strength.
\<close>

definition batteryPacket :: event where
  "batteryPacket =
     \<lparr>deviceId = ''dev1'', rssi = - 81,
      manufacturerData = Map.empty, serviceData = [0x180F \<mapsto> view_of [0x64]]\<rparr>"

definition urlPacket :: event where
  "urlPacket =
     \<lparr>deviceId = ''dev1'', rssi = - 40,
      manufacturerData = Map.empty, serviceData = [0xfeaa \<mapsto> view_of example2]\<rparr>"

text \<open>
  The iBeacon payload of Example 1: the magic bytes, the identifier \<open>0x01\<close> to \<open>0x10\<close>,
  major 1, minor 2 and a transmit-power byte.
\<close>

definition example1 :: "byte list" where
  "example1 =
     [0x02, 0x15,
      0x01, 0x02, 0x03, 0x04, 0x05, 0x06, 0x07, 0x08,
      0x09, 0x0A, 0x0B, 0x0C, 0x0D, 0x0E, 0x0F, 0x10,
      0x00, 0x01, 0x00, 0x02, 0x00]"

text \<open>
  An iBeacon payload inside a larger buffer, with letters among the hexadecimal digits and
  a major and a minor that need both of their bytes.
\<close>

definition beaconInBuffer :: dataview where
  "beaconInBuffer =
     \<lparr>buffer =
        [0x4C, 0x00,
         0x02, 0x15,
         0xFD, 0xA5, 0x06, 0x93, 0xA4, 0xE2, 0x4F, 0xB1,
         0xAF, 0xCF, 0xC6, 0xEB, 0x07, 0x64, 0x78, 0x25,
         0x27, 0x11, 0x01, 0x02, 0xC5,
         0xFF],
      byteOffset = 2, byteLength = 23\<rparr>"

text \<open>The telemetry payload of Example 3.\<close>

definition example3 :: "byte list" where
  "example3 =
     [0x20, 0x00, 0x0B, 0xB8, 0x15, 0x80, 0x00, 0x00, 0x00, 0x64, 0x00, 0x00, 0x8C, 0xA0]"

text \<open>
  A telemetry payload inside a larger buffer, with a temperature below zero and the
  largest uptime.
\<close>

definition tlmInBuffer :: dataview where
  "tlmInBuffer =
     \<lparr>buffer =
        [0xAA, 0xFE,
         0x20, 0x00, 0x0C, 0x1C, 0xFF, 0x40, 0x00, 0x01, 0x00, 0x00, 0xFF, 0xFF, 0xFF, 0xFF],
      byteOffset = 2, byteLength = 14\<rparr>"

text \<open>The RuuviTag payload of Example 4, padded with zeros to 24 bytes.\<close>

definition example4 :: "byte list" where
  "example4 = [0x05, 0x01, 0x90, 0x4E, 0x20, 0x13, 0x88] @ replicate 17 0x00"

section \<open>Basic facts\<close>

lemma bindE_Inl [simp]: "bindE (Inl e) f = Inl e"
  by (simp add: bindE_def)

lemma bindE_Inr [simp]: "bindE (Inr v) f = f v"
  by (simp add: bindE_def)

lemma error_is_RangeError: "(e::error) = RangeError"
  by (cases e) simp

lemma view_of_sel [simp]:
  "buffer (view_of bs) = bs" "byteOffset (view_of bs) = 0" "byteLength (view_of bs) = length bs"
  by (simp_all add: view_of_def)

lemma wf_view_of [simp]: "wf_view (view_of bs)"
  by (simp add: wf_view_def)

lemma byteAt_view_of [simp]: "byteAt (view_of bs) i = bs ! i"
  by (simp add: byteAt_def)

lemma payload_view_of [simp]: "payload (view_of bs) = bs"
  by (simp add: payload_def)

lemma DataView_new_view_of [simp]: "DataView_new bs 0 = Inr (view_of bs)"
  by (simp add: DataView_new_def view_of_def)

lemma DataView_new_wf:
  "wf_view data \<Longrightarrow>
   DataView_new (buffer data) (byteOffset data) =
     Inr \<lparr>buffer = buffer data, byteOffset = byteOffset data,
          byteLength = length (buffer data) - byteOffset data\<rparr>"
  by (simp add: DataView_new_def wf_view_def)

lemma byteAt_extended [simp]:
  "byteAt \<lparr>buffer = buffer data, byteOffset = byteOffset data, byteLength = n\<rparr> i
     = byteAt data i"
  by (simp add: byteAt_def)

lemma unat_byte_less: "unat (b::byte) < 256"
  using unsigned_less [of b, where 'a = nat] by simp

lemma unat_byte_eq: "(unat (w::byte) = n) = (n < 256 \<and> w = of_nat n)"
proof
  assume "unat w = n"
  moreover have "unat w < 256" using unsigned_less [of w, where 'a = nat] by simp
  ultimately show "n < 256 \<and> w = of_nat n" by auto
next
  assume "n < 256 \<and> w = of_nat n"
  then show "unat w = n" by (simp add: unat_of_nat)
qed

lemma sint_byte_range: "- 128 \<le> sint (b::byte)" "sint (b::byte) < 128"
  using sint_ge [of b] sint_lt [of b] by simp_all

lemma be16_less: "be16 hi lo < 2 ^ 16"
  using unat_byte_less [of hi] unat_byte_less [of lo] by (simp add: be16_def)

lemma be32_less: "be32 b0 b1 b2 b3 < 2 ^ 32"
  using unat_byte_less [of b0] unat_byte_less [of b1] unat_byte_less [of b2]
    unat_byte_less [of b3]
  by (simp add: be32_def)

lemma payload_nth:
  "wf_view d \<Longrightarrow> i < byteLength d \<Longrightarrow> payload d ! i = byteAt d i"
  by (simp add: payload_def byteAt_def wf_view_def)

lemma payload_drop:
  assumes "wf_view d"
  shows "drop i (payload d) = map (byteAt d) [i..<byteLength d]"
proof (rule nth_equalityI)
  show "length (drop i (payload d)) = length (map (byteAt d) [i..<byteLength d])"
    using assms by (simp add: payload_def wf_view_def)
next
  fix j
  assume "j < length (drop i (payload d))"
  then have "i + j < byteLength d"
    using assms by (simp add: payload_def wf_view_def)
  then show "drop i (payload d) ! j = map (byteAt d) [i..<byteLength d] ! j"
    using assms by (simp add: payload_nth payload_def wf_view_def byteAt_def add.assoc)
qed

lemma getUint8_eq:
  "getUint8 d i = (if i < byteLength d then Inr (unat (byteAt d i)) else Inl RangeError)"
  by (simp add: getUint8_def Suc_le_eq)

lemma getInt8_eq:
  "getInt8 d i = (if i < byteLength d then Inr (sint (byteAt d i)) else Inl RangeError)"
  by (simp add: getInt8_def Suc_le_eq)

lemma getUint16_eq:
  "getUint16 d i =
     (if i + 2 \<le> byteLength d then Inr (be16 (byteAt d i) (byteAt d (i + 1)))
      else Inl RangeError)"
  by (simp add: getUint16_def be16_def)

lemma getInt16_eq:
  "getInt16 d i =
     (if i + 2 \<le> byteLength d then Inr (signed16 (be16 (byteAt d i) (byteAt d (i + 1))))
      else Inl RangeError)"
  by (simp add: getInt16_def be16_def signed16_def Let_def)

lemma getUint32_eq:
  "getUint32 d i =
     (if i + 4 \<le> byteLength d
      then Inr (be32 (byteAt d i) (byteAt d (i + 1)) (byteAt d (i + 2)) (byteAt d (i + 3)))
      else Inl RangeError)"
  by (simp add: getUint32_def be32_def)

section \<open>Rounding and formatting of numbers\<close>

lemma roundTiesToEven_of_int [simp]: "roundTiesToEven (of_int z) = z"
  by (simp add: roundTiesToEven_def)

lemma roundTiesToEven_error: "\<bar>of_int (roundTiesToEven y) - y\<bar> \<le> 1 / 2"
proof -
  have "of_int \<lfloor>y\<rfloor> \<le> y" "y < of_int \<lfloor>y\<rfloor> + 1"
    by linarith+
  then show ?thesis
    by (auto simp: roundTiesToEven_def Let_def)
qed

lemma floorlog_pos: "0 < n \<Longrightarrow> 0 < floorlog 2 n"
  by (simp add: floorlog_def)

lemma exponent_bounds:
  assumes "0 < x"
  shows "2 powi exponent x \<le> x" and "x < 2 powi (exponent x + 1)"
proof -
  have "2 powi exponent x \<le> x \<and> x < 2 powi (exponent x + 1)"
  proof (cases "1 \<le> x")
    case True
    define n where "n = nat \<lfloor>x\<rfloor>"
    define k where "k = floorlog 2 n"
    have fl1: "1 \<le> \<lfloor>x\<rfloor>" using True by simp
    then have n: "0 < n" "of_nat n = (of_int \<lfloor>x\<rfloor> :: rat)"
      by (simp_all add: n_def)
    have k: "0 < k" using n(1) by (simp add: k_def floorlog_pos)
    have b: "2 ^ (k - 1) \<le> n" "n < 2 ^ k"
      using floorlog_bounds [of n 2] n(1) by (simp_all add: k_def)
    have e: "exponent x = int (k - 1)" "exponent x + 1 = int k"
      using True k by (simp_all add: exponent_def k_def n_def)
    have "(2::rat) ^ (k - 1) = of_nat (2 ^ (k - 1))" by simp
    also have "\<dots> \<le> of_nat n" using b(1) by (rule of_nat_mono)
    also have "\<dots> \<le> x" by (simp add: n(2))
    finally have lo: "(2::rat) ^ (k - 1) \<le> x" .
    have "x < of_int \<lfloor>x\<rfloor> + 1" by linarith
    also have "\<dots> = of_nat (Suc n)" by (simp add: n(2))
    also have "\<dots> \<le> of_nat (2 ^ k)" using b(2) by (intro of_nat_mono) simp
    also have "\<dots> = (2::rat) ^ k" by simp
    finally have hi: "x < (2::rat) ^ k" .
    have "2 powi exponent x = (2::rat) ^ (k - 1)"
      by (simp only: e(1) power_int_of_nat)
    moreover have "2 powi (exponent x + 1) = (2::rat) ^ k"
      by (simp only: e(2) power_int_of_nat)
    ultimately show ?thesis using lo hi by simp
  next
    case False
    define y where "y = 1 / x"
    define m where "m = nat (\<lceil>y\<rceil> - 1)"
    define k where "k = floorlog 2 m"
    have y: "1 < y" using False assms by (simp add: y_def)
    then have c: "2 \<le> \<lceil>y\<rceil>" by linarith
    then have m: "0 < m" "of_nat m = (of_int \<lceil>y\<rceil> :: rat) - 1"
      by (simp_all add: m_def)
    have k: "0 < k" using m(1) by (simp add: k_def floorlog_pos)
    have b: "2 ^ (k - 1) \<le> m" "m < 2 ^ k"
      using floorlog_bounds [of m 2] m(1) by (simp_all add: k_def)
    have e: "exponent x = - int k"
      using False by (simp add: exponent_def k_def m_def y_def)
    have "y \<le> of_int \<lceil>y\<rceil>" by linarith
    also have "\<dots> = of_nat (Suc m)" using m(2) by simp
    also have "\<dots> \<le> of_nat (2 ^ k)" using b(2) by (intro of_nat_mono) simp
    also have "\<dots> = (2::rat) ^ k" by simp
    finally have yk: "y \<le> (2::rat) ^ k" .
    have "(2::rat) ^ (k - 1) = of_nat (2 ^ (k - 1))" by simp
    also have "\<dots> \<le> of_nat m" using b(1) by (rule of_nat_mono)
    also have "\<dots> < y" using m(2) by linarith
    finally have ky: "(2::rat) ^ (k - 1) < y" .
    have x: "x = 1 / y" using assms by (simp add: y_def)
    have "2 powi (- int k) = 1 / (2::rat) ^ k"
      by (simp only: power_int_minus_divide power_int_of_nat)
    then have p1: "2 powi exponent x = 1 / (2::rat) ^ k"
      by (simp only: e)
    have "exponent x + 1 = - int (k - 1)" using k by (simp add: e)
    then have p2: "2 powi (exponent x + 1) = 1 / (2::rat) ^ (k - 1)"
      by (simp only: power_int_minus_divide power_int_of_nat)
    have lo: "1 / (2::rat) ^ k \<le> 1 / y"
      using yk y by (intro divide_left_mono) simp_all
    have hi: "1 / y < 1 / (2::rat) ^ (k - 1)"
      using ky y by (intro divide_strict_left_mono) simp_all
    show ?thesis unfolding p1 p2 using lo hi by (simp add: x)
  qed
  then show "2 powi exponent x \<le> x" and "x < 2 powi (exponent x + 1)"
    by simp_all
qed

lemma powi_less_cancel:
  assumes "(2::rat) powi a < 2 powi b"
  shows "a < b"
proof (rule ccontr)
  assume "\<not> a < b"
  then have "(2::rat) powi b \<le> 2 powi a"
    by (intro power_int_increasing) simp_all
  with assms show False by simp
qed

lemma exponent_ge:
  assumes "2 powi n \<le> x"
  shows "n \<le> exponent x"
proof -
  have "0 < x"
    using assms zero_less_power_int [of "2::rat" n] by linarith
  then have "x < 2 powi (exponent x + 1)"
    by (rule exponent_bounds)
  with assms have "(2::rat) powi n < 2 powi (exponent x + 1)"
    by linarith
  then have "n < exponent x + 1"
    by (rule powi_less_cancel)
  then show ?thesis by simp
qed

lemma exponent_less:
  assumes "0 < x" and "x < 2 powi n"
  shows "exponent x < n"
proof -
  have "(2::rat) powi exponent x < 2 powi n"
    using exponent_bounds(1) [OF assms(1)] assms(2) by linarith
  then show ?thesis
    by (rule powi_less_cancel)
qed

text \<open>A number with an integer significand below \<open>2 ^ 53\<close> is a double.\<close>

lemma fl_exact:
  assumes "\<bar>m\<bar> < 2 ^ 53" and "- 1074 \<le> k"
  shows "fl (of_int m * 2 powi k) = of_int m * 2 powi k"
proof (cases "m = 0")
  case True
  then show ?thesis by (simp add: fl_def)
next
  case False
  define x :: rat where "x = of_int m * 2 powi k"
  define e where "e = max (exponent \<bar>x\<bar>) (- 1022) - 52"
  have ax: "\<bar>x\<bar> = of_int \<bar>m\<bar> * 2 powi k"
    by (simp add: x_def abs_mult)
  have pos: "0 < \<bar>x\<bar>"
    using False by (simp add: x_def)
  have "of_int \<bar>m\<bar> < (2::rat) ^ 53"
    using assms(1) by (metis of_int_less_iff of_int_numeral of_int_power)
  then have "\<bar>x\<bar> < 2 ^ 53 * 2 powi k"
    unfolding ax by (intro mult_strict_right_mono) simp_all
  also have "\<dots> = 2 powi (53 + k)"
    by (simp add: power_int_add)
  finally have "exponent \<bar>x\<bar> < 53 + k"
    using pos by (intro exponent_less)
  then have ek: "e \<le> k"
    using assms(2) by (simp add: e_def)
  define d where "d = nat (k - e)"
  have k: "k = e + int d"
    using ek by (simp add: d_def)
  have "x / 2 powi e = of_int m * 2 ^ d"
    unfolding x_def k by (simp add: power_int_add)
  also have "\<dots> = of_int (m * 2 ^ d)"
    by simp
  finally have q: "x / 2 powi e = of_int (m * 2 ^ d)" .
  have "fl x = of_int (roundTiesToEven (x / 2 powi e)) * 2 powi e"
    using pos by (simp add: fl_def e_def Let_def)
  also have "\<dots> = of_int (m * 2 ^ d) * 2 powi e"
    by (simp only: q roundTiesToEven_of_int)
  also have "\<dots> = x"
    unfolding x_def k by (simp add: power_int_add)
  finally show ?thesis
    by (simp add: x_def)
qed

text \<open>Rounding a normal positive number changes it by at most the fraction \<open>2 powi (- 53)\<close>.\<close>

lemma fl_error:
  assumes "2 powi (- 1022) \<le> x"
  shows "\<bar>fl x - x\<bar> \<le> x * 2 powi (- 53)"
proof -
  have pos: "0 < x"
    using assms zero_less_power_int [of "2::rat" "- 1022"] by linarith
  define e where "e = exponent x"
  define q :: rat where "q = 2 powi (e - 52)"
  have e: "- 1022 \<le> e"
    unfolding e_def using assms by (rule exponent_ge)
  have q: "0 < q" by (simp add: q_def)
  have flx: "fl x = of_int (roundTiesToEven (x / q)) * q"
    using pos e by (simp add: fl_def e_def q_def Let_def max_def)
  have "fl x - x = (of_int (roundTiesToEven (x / q)) - x / q) * q"
    using q by (simp add: flx algebra_simps)
  then have "\<bar>fl x - x\<bar> = \<bar>of_int (roundTiesToEven (x / q)) - x / q\<bar> * q"
    using q by (simp add: abs_mult)
  also have "\<dots> \<le> 1 / 2 * q"
    using q roundTiesToEven_error [of "x / q"] by (intro mult_right_mono) simp_all
  also have "\<dots> = 2 powi e * 2 powi (- 53)"
    by (simp add: q_def power_int_diff power_int_minus_divide)
  also have "\<dots> \<le> x * 2 powi (- 53)"
    using exponent_bounds(1) [OF pos] by (intro mult_right_mono) (simp_all add: e_def)
  finally show ?thesis .
qed

text \<open>
  Formatting: the digits that \<open>toFixed\<close> prints for a number of tenths or hundredths, and
  the quotients of the program, whose rounding error the formatting does not see.
\<close>

lemma decimal_small: "n < 10 \<Longrightarrow> decimal n = [digitChar n]"
  by (simp add: decimal.simps [of n])

lemma decimal_step: "10 \<le> n \<Longrightarrow> decimal n = decimal (n div 10) @ [digitChar (n mod 10)]"
  by (simp add: decimal.simps [of n])

lemma length_decimal: "0 < length (decimal n)"
  by (cases "n < 10") (simp_all add: decimal_small decimal_step)

lemma digitChar_0: "digitChar 0 = CHR ''0''"
  by (simp add: digitChar_def)

lemma withPoint1: "withPoint 1 (decimal n) = fixed1 n"
proof (cases "n < 10")
  case True
  then show ?thesis
    by (simp add: withPoint_def fixed1_def decimal_small digitChar_0)
next
  case False
  then have d: "decimal n = decimal (n div 10) @ [digitChar (n mod 10)]"
    by (simp add: decimal_step)
  have "0 < length (decimal (n div 10))" by (rule length_decimal)
  then show ?thesis
    by (simp add: withPoint_def fixed1_def d)
qed

lemma withPoint2: "withPoint 2 (decimal n) = fixed2 n"
proof -
  consider "n < 10" | "10 \<le> n" "n < 100" | "100 \<le> n" by linarith
  then show ?thesis
  proof cases
    case 1
    then show ?thesis
      by (simp add: withPoint_def fixed2_def decimal_small digitChar_0 numeral_2_eq_2)
  next
    case 2
    then have "n div 10 < 10" "n div 100 = 0" "n div 10 mod 10 = n div 10"
      by simp_all
    then show ?thesis
      using 2 by (simp add: withPoint_def fixed2_def decimal_step decimal_small digitChar_0)
  next
    case 3
    then have "10 \<le> n" "10 \<le> n div 10" by simp_all
    moreover have "n div 10 div 10 = n div 100" by simp
    ultimately have d: "decimal n =
        decimal (n div 100) @ [digitChar (n div 10 mod 10), digitChar (n mod 10)]"
      by (simp add: decimal_step [of n] decimal_step [of "n div 10"])
    have "0 < length (decimal (n div 100))" by (rule length_decimal)
    then show ?thesis
      by (simp add: withPoint_def fixed2_def d)
  qed
qed

lemma toFixed_near:
  assumes "0 \<le> y" and "\<bar>y * 10 ^ f - of_nat n\<bar> < 1 / 2"
  shows "toFixed f y = withPoint f (decimal n)"
proof -
  have "of_nat n - 1 / 2 < y * 10 ^ f" "y * 10 ^ f < of_nat n + 1 / 2"
    using assms(2) by linarith+
  then have "of_int (int n) \<le> y * 10 ^ f + 1 / 2" "y * 10 ^ f + 1 / 2 < of_int (int n) + 1"
    by simp_all
  then have "\<lfloor>y * 10 ^ f + 1 / 2\<rfloor> = int n"
    by (rule floor_unique)
  then show ?thesis
    using assms(1) by (simp add: toFixed_def)
qed

lemma toFixed2_near:
  assumes "0 \<le> y" and "\<bar>y * 100 - of_nat n\<bar> < 1 / 2"
  shows "toFixed 2 y = fixed2 n"
  using toFixed_near [of y 2 n] assms by (simp add: withPoint2)

lemma tiny_le: "(2::rat) powi (- 1022) \<le> 1 / 100"
proof -
  have "(2::rat) powi (- 1022) \<le> 2 powi (- 7)"
    by (intro power_int_increasing) simp_all
  also have "\<dots> \<le> 1 / 100"
    by (simp add: power_int_minus_divide)
  finally show ?thesis .
qed

lemma fl_quotient:
  assumes "n < 2 ^ 32" and "d = 10 \<or> d = 100"
  shows "0 \<le> fl (of_nat n / d)" and "\<bar>fl (of_nat n / d) * d - of_nat n\<bar> < 1 / 2"
proof -
  have d: "0 < d" "d \<le> 100" using assms(2) by auto
  have "0 \<le> fl (of_nat n / d) \<and> \<bar>fl (of_nat n / d) * d - of_nat n\<bar> < 1 / 2"
  proof (cases "n = 0")
    case True
    then show ?thesis by (simp add: fl_def)
  next
    case False
    define x :: rat where "x = of_nat n / d"
    have n1: "(1::rat) \<le> of_nat n" using False by simp
    have "1 / 100 \<le> 1 / d" using d by (simp add: field_simps)
    also have "\<dots> \<le> x" using d n1 by (simp add: x_def field_simps)
    finally have "2 powi (- 1022) \<le> x" using tiny_le by linarith
    then have err: "\<bar>fl x - x\<bar> \<le> x * 2 powi (- 53)" by (rule fl_error)
    have xd: "x * d = of_nat n" using d by (simp add: x_def)
    have "\<bar>fl x * d - of_nat n\<bar> = \<bar>fl x - x\<bar> * d"
      using d by (simp add: xd [symmetric] abs_mult left_diff_distrib [symmetric]
          del: of_nat_eq_iff)
    also have "\<dots> \<le> x * 2 powi (- 53) * d"
      using err d by (intro mult_right_mono) simp_all
    also have "\<dots> = of_nat n * 2 powi (- 53)"
      using xd by (simp add: mult.commute mult.left_commute)
    also have "\<dots> < 2 ^ 32 * 2 powi (- 53)"
    proof (intro mult_strict_right_mono)
      have "(of_nat n :: rat) < of_nat (2 ^ 32)"
        using assms(1) by (simp only: of_nat_less_iff)
      then show "(of_nat n :: rat) < 2 ^ 32" by simp
      show "(0::rat) < 2 powi (- 53)" by simp
    qed
    also have "\<dots> < 1 / 2"
      by (simp add: power_int_minus_divide)
    finally have close: "\<bar>fl x * d - of_nat n\<bar> < 1 / 2" .
    then have "0 < fl x * d" using n1 by linarith
    then have "0 < fl x" using d by (simp add: zero_less_mult_iff)
    then show ?thesis using close by (simp add: x_def)
  qed
  then show "0 \<le> fl (of_nat n / d)" and "\<bar>fl (of_nat n / d) * d - of_nat n\<bar> < 1 / 2"
    by simp_all
qed

lemma toFixed_tenths:
  assumes "n < 2 ^ 32"
  shows "toFixed 1 (fdiv (of_nat n) 10) = fixed1 n"
proof -
  have "0 \<le> fl (of_nat n / 10)" "\<bar>fl (of_nat n / 10) * 10 ^ 1 - of_nat n\<bar> < 1 / 2"
    using fl_quotient [OF assms, of 10] by simp_all
  then have "toFixed 1 (fl (of_nat n / 10)) = withPoint 1 (decimal n)"
    by (rule toFixed_near)
  then show ?thesis
    by (simp only: fdiv_def withPoint1)
qed

lemma toFixed_hundredths:
  assumes "n < 2 ^ 32"
  shows "toFixed 2 (fdiv (of_nat n) 100) = fixed2 n"
proof -
  have "0 \<le> fl (of_nat n / 100)" "\<bar>fl (of_nat n / 100) * 10 ^ 2 - of_nat n\<bar> < 1 / 2"
    using fl_quotient [OF assms, of 100] by simp_all
  then have "toFixed 2 (fl (of_nat n / 100)) = withPoint 2 (decimal n)"
    by (rule toFixed_near)
  then show ?thesis
    by (simp only: fdiv_def withPoint2)
qed

lemma fl_dyadic8: "\<bar>m\<bar> < 2 ^ 53 \<Longrightarrow> fl (of_int m / 256) = of_int m / 256"
  using fl_exact [of m "- 8"] by (simp add: power_int_minus_divide)

lemma fl_integer: "\<bar>m\<bar> < 2 ^ 53 \<Longrightarrow> fl (of_int m) = of_int m"
  using fl_exact [of m 0] by simp

lemma toFixed2_dyadic8:
  "toFixed 2 (of_int t + of_nat f / 256) =
     (if 256 * t + int f < 0 then ''-'' else [])
     @ fixed2 (nat ((\<bar>256 * t + int f\<bar> * 100 + 128) div 256))"
proof -
  define v where "v = 256 * t + int f"
  have x: "(of_int t + of_nat f / 256 :: rat) = of_int v / 256"
    by (simp add: v_def)
  have "\<bar>of_int v / 256 :: rat\<bar> * 10 ^ 2 + 1 / 2 = of_int (\<bar>v\<bar> * 100 + 128) / of_int 256"
    by simp
  then have "\<lfloor>\<bar>of_int v / 256 :: rat\<bar> * 10 ^ 2 + 1 / 2\<rfloor> = (\<bar>v\<bar> * 100 + 128) div 256"
    by (simp only: floor_divide_of_int_eq)
  moreover have "(of_int v / 256 < (0::rat)) = (v < 0)"
    by simp
  ultimately show ?thesis
    unfolding x by (simp add: toFixed_def withPoint2 v_def)
qed

section \<open>iBeacon\<close>

lemma upper_hexDigit: "n < 16 \<Longrightarrow> upperChar (hexDigit n) = upperHexDigit n"
proof -
  have "list_all (\<lambda>n. upperChar (hexDigit n) = upperHexDigit n) [0..<16]"
    by code_simp
  then show "n < 16 \<Longrightarrow> upperChar (hexDigit n) = upperHexDigit n"
    by (simp add: list_all_iff)
qed

lemma hex_pair: "padStart2 (toString16 (unat (b::byte))) =
   [hexDigit (unat b div 16), hexDigit (unat b mod 16)]"
proof (cases "unat b < 16")
  case True
  then show ?thesis
    by (simp add: toString16.simps [of "unat b"] padStart2_def hexDigit_def)
next
  case False
  moreover have "unat b div 16 < 16"
    using unat_byte_less [of b] by simp
  ultimately show ?thesis
    by (simp add: toString16.simps [of "unat b"] toString16.simps [of "unat b div 16"]
        padStart2_def)
qed

lemma toUpperCase_hexJoin: "toUpperCase (hexJoin bytes) = hexString bytes"
proof (induction bytes)
  case Nil
  show ?case by (simp add: toUpperCase_def hexJoin_def hexString_def)
next
  case (Cons b bytes)
  have "unat b div 16 < 16" "unat b mod 16 < 16"
    using unat_byte_less [of b] by simp_all
  then show ?case
    using Cons.IH
    by (simp add: toUpperCase_def hexJoin_def hexString_def hex_pair hexUpper_def upper_hexDigit)
qed

lemma length_hexJoin: "length (hexJoin bytes) = 2 * length bytes"
  by (induction bytes) (simp_all add: hexJoin_def hex_pair)

lemma take_hexJoin: "take (2 * n) (hexJoin bytes) = hexJoin (take n bytes)"
proof (induction bytes arbitrary: n)
  case Nil
  show ?case by (simp add: hexJoin_def)
next
  case (Cons b bytes)
  show ?case
  proof (cases n)
    case 0
    then show ?thesis by (simp add: hexJoin_def)
  next
    case (Suc m)
    have "take (2 * m) (hexJoin bytes) = hexJoin (take m bytes)"
      by (rule Cons.IH)
    then show ?thesis
      using Suc by (simp add: hexJoin_def hex_pair)
  qed
qed

lemma drop_hexJoin: "drop (2 * n) (hexJoin bytes) = hexJoin (drop n bytes)"
proof (induction bytes arbitrary: n)
  case Nil
  show ?case by (simp add: hexJoin_def)
next
  case (Cons b bytes)
  show ?case
  proof (cases n)
    case 0
    then show ?thesis by (simp add: hexJoin_def)
  next
    case (Suc m)
    have "drop (2 * m) (hexJoin bytes) = hexJoin (drop m bytes)"
      by (rule Cons.IH)
    then show ?thesis
      using Suc by (simp add: hexJoin_def hex_pair)
  qed
qed

lemma slice_hexJoin:
  "slice (hexJoin bytes) (2 * a) (2 * b) = hexJoin (take (b - a) (drop a bytes))"
proof -
  have "2 * b - 2 * a = 2 * (b - a)" by simp
  then show ?thesis
    by (simp only: slice_def drop_hexJoin take_hexJoin)
qed

lemma upperChar_dash: "upperChar (CHR ''-'') = CHR ''-''"
  by (simp add: upperChar_def)

lemma bytesToUuid_spec: "bytesToUuid bytes = uuidString bytes"
proof -
  have s: "slice (hexJoin bytes) 0 8 = hexJoin (take 4 bytes)"
    "slice (hexJoin bytes) 8 12 = hexJoin (take 2 (drop 4 bytes))"
    "slice (hexJoin bytes) 12 16 = hexJoin (take 2 (drop 6 bytes))"
    "slice (hexJoin bytes) 16 20 = hexJoin (take 2 (drop 8 bytes))"
    "slice (hexJoin bytes) 20 32 = hexJoin (take 6 (drop 10 bytes))"
    using slice_hexJoin [of bytes 0 4] slice_hexJoin [of bytes 4 6] slice_hexJoin [of bytes 6 8]
      slice_hexJoin [of bytes 8 10] slice_hexJoin [of bytes 10 16]
    by simp_all
  have u: "toUpperCase (xs @ ys) = toUpperCase xs @ toUpperCase ys" for xs ys
    by (simp add: toUpperCase_def)
  have d: "toUpperCase (CHR ''-'' # xs) = CHR ''-'' # toUpperCase xs" for xs
    by (simp add: toUpperCase_def upperChar_dash)
  show ?thesis
    by (simp add: bytesToUuid_def uuidString_def s u d toUpperCase_hexJoin)
qed

lemma isIBeacon_spec: "wf_view data \<Longrightarrow> isIBeacon data = Inr (hasIBeaconPrefix data)"
  by (auto simp: isIBeacon_def hasIBeaconPrefix_def getUint8_eq payload_nth unat_byte_eq)

lemma parseIBeacon_spec:
  assumes "wf_view data" and "23 \<le> byteLength data"
  shows "parseIBeacon data = Inr (iBeaconOf (payload data))"
proof -
  have len: "byteOffset data + 23 \<le> length (buffer data)"
    using assms by (simp add: wf_view_def)
  have uuid: "Uint8Array_new (buffer data) (byteOffset data + 2) 16
      = Inr (take 16 (drop 2 (payload data)))"
    using assms(2) len by (simp add: Uint8Array_new_def payload_def drop_take add.commute)
  have nth: "payload data ! 18 = byteAt data 18" "payload data ! 19 = byteAt data 19"
    "payload data ! 20 = byteAt data 20" "payload data ! 21 = byteAt data 21"
    using assms by (simp_all add: payload_nth)
  show ?thesis
    using len
    by (simp add: parseIBeacon_def DataView_new_wf [OF assms(1)]
        getUint16_eq uuid nth iBeaconOf_def bytesToUuid_spec
        del: add_2_eq_Suc add_2_eq_Suc')
qed

lemma iBeaconOf_example1:
  "iBeaconOf example1 = IBeacon ''01020304-0506-0708-090A-0B0C0D0E0F10'' 1 2"
  by code_simp

lemma iBeaconOf_beaconInBuffer:
  "iBeaconOf (payload beaconInBuffer) = IBeacon ''FDA50693-A4E2-4FB1-AFCF-C6EB07647825'' 10001 258"
  by code_simp

text \<open>
  C4. For a payload of at least 23 bytes that starts with \<open>0x02, 0x15\<close>, the iBeacon
  decoder returns the identifier of bytes 2 to 17 in upper-case hexadecimal grouped
  8-4-4-4-12, the big-endian major of bytes 18 and 19 and the big-endian minor of bytes 20
  and 21, and an advertisement that carries the payload under company \<open>0x004C\<close> is
  classified as that record in the three revisions. The payload of Example 1 decodes to
  \<open>01020304-0506-0708-090A-0B0C0D0E0F10\<close>, major 1, minor 2.
\<close>

theorem ibeacon_decoding:
  assumes "wf_view data" and "hasIBeaconPrefix data"
  shows "parseIBeacon data = Inr (iBeaconOf (payload data))
    \<and> (manufacturerData ev 0x004C = Some data \<longrightarrow>
          classify ev = Inr (Some (iBeaconOf (payload data)))
          \<and> classify_v2 ev = Inr (Some (iBeaconOf (payload data)))
          \<and> classify_v1 ev = Inr (Some (iBeaconOf (payload data))))
    \<and> parseIBeacon (view_of example1)
        = Inr (IBeacon ''01020304-0506-0708-090A-0B0C0D0E0F10'' 1 2)"
proof -
  have len: "23 \<le> byteLength data"
    using assms(2) by (simp add: hasIBeaconPrefix_def)
  have ex: "parseIBeacon (view_of example1) = Inr (iBeaconOf example1)"
    using parseIBeacon_spec [of "view_of example1"] by (simp add: example1_def)
  show ?thesis
    using assms(2)
    by (simp add: parseIBeacon_spec [OF assms(1) len] classify_def classify_v2_def
        classify_v1_def isIBeacon_spec [OF assms(1)] ex iBeaconOf_example1)
qed

theorem ibeacon_decoding_witness:
  "wf_view beaconInBuffer \<and> hasIBeaconPrefix beaconInBuffer
   \<and> parseIBeacon beaconInBuffer
       = Inr (IBeacon ''FDA50693-A4E2-4FB1-AFCF-C6EB07647825'' 10001 258)"
proof -
  have w: "wf_view beaconInBuffer"
    by (simp add: wf_view_def beaconInBuffer_def)
  have h: "hasIBeaconPrefix beaconInBuffer"
    by (simp add: hasIBeaconPrefix_def payload_def beaconInBuffer_def)
  show ?thesis
    using ibeacon_decoding [OF w h] by (simp add: w h iBeaconOf_beaconInBuffer)
qed

section \<open>The URL codec\<close>

lemma urlLoop_concat:
  "i \<le> byteLength dv \<Longrightarrow>
   urlLoop table dv i url =
     Inr (url @ concat (map (\<lambda>j. urlPiece table (byteAt dv j)) [i..<byteLength dv]))"
proof (induction "byteLength dv - i" arbitrary: i url)
  case 0
  then have "i = byteLength dv" by simp
  then show ?case by (subst urlLoop.simps) simp
next
  case (Suc n)
  then have less: "i < byteLength dv" by simp
  then have "urlLoop table dv i url =
      urlLoop table dv (i + 1) (url @ urlPiece table (byteAt dv i))"
    by (subst urlLoop.simps) (simp add: getUint8_eq urlPiece_def fromCharCode_def)
  also have "\<dots> = Inr ((url @ urlPiece table (byteAt dv i))
      @ concat (map (\<lambda>j. urlPiece table (byteAt dv j)) [i + 1..<byteLength dv]))"
    using Suc.hyps(2) less by (intro Suc.hyps(1)) simp_all
  finally show ?case
    using less by (simp add: upt_conv_Cons)
qed

lemma schemes_prefix:
  "(if unat c < length schemes then schemes ! unat c else []) = schemePrefix c"
proof -
  have "unat c = 0 \<or> unat c = 1 \<or> unat c = 2 \<or> unat c = 3 \<or> 4 \<le> unat c"
    by arith
  then show ?thesis
    by (elim disjE) (auto simp: schemes_def schemePrefix_def unat_byte_eq)
qed

lemma decodeUrlWith_spec:
  assumes "wf_view dv" and "3 \<le> byteLength dv"
  shows "decodeUrlWith table dv =
     Inr (schemePrefix (payload dv ! 2) @ urlBody table (drop 3 (payload dv)))"
  using assms
  by (simp add: decodeUrlWith_def getUint8_eq schemes_prefix urlLoop_concat urlBody_def
      payload_drop payload_nth comp_def)

lemma urlBody_append: "urlBody table (xs @ ys) = urlBody table xs @ urlBody table ys"
  by (simp add: urlBody_def)

lemma urlBody_Cons: "urlBody table (c # cs) = urlPiece table c @ urlBody table cs"
  by (simp add: urlBody_def)

lemma length_expansions [simp]: "length expansions = 14" "length expansions_v1 = 14"
  by (simp_all add: expansions_def expansions_v1_def)

lemma decodeEddystoneUrl_example2:
  "decodeEddystoneUrl (view_of example2) = Inr ''http://www.example.com/''"
  by (simp add: example2_def getUint8_eq decodeEddystoneUrl_def decodeUrlWith_def schemes_def
      expansions_def urlLoop.simps fromCharCode_def) code_simp

lemma parseEddystone_example2:
  "parseEddystone (view_of example2) = Inr (Some (EddystoneURL ''http://www.example.com/''))"
  by (simp add: parseEddystone_def eddystoneFrame_def example2_def getUint8_eq
      decodeEddystoneUrl_def decodeUrlWith_def schemes_def expansions_def urlLoop.simps
      fromCharCode_def) code_simp

lemma parseEddystone_v2_example2:
  "parseEddystone_v2 (view_of example2) = Inr (Some (EddystoneURL ''http://www.example.com/''))"
  by (simp add: parseEddystone_v2_def eddystoneFrame_def example2_def getUint8_eq
      decodeEddystoneUrl_def decodeUrlWith_def schemes_def expansions_def urlLoop.simps
      fromCharCode_def) code_simp

text \<open>
  Inside \<open>parseEddystone\<close> the URL is decoded over the view that runs to the end of the
  buffer, so the bytes that follow the payload in its buffer, if any, are decoded as well.
  For a payload that ends with its buffer, as the platform delivers it, these are the
  bytes of the payload.
\<close>

lemma parseEddystone_url:
  assumes "wf_view data" and "4 \<le> byteLength data" and "payload data ! 0 = 0x10"
  shows "parseEddystone data =
     Inr (Some (EddystoneURL
       (schemePrefix (payload data ! 2) @ urlBody expansions (drop 3 (toBufferEnd data)))))"
proof -
  define dv where "dv = \<lparr>buffer = buffer data, byteOffset = byteOffset data,
      byteLength = length (buffer data) - byteOffset data\<rparr>"
  have len: "4 \<le> length (buffer data) - byteOffset data"
    using assms by (simp add: wf_view_def)
  have dv: "wf_view dv" "3 \<le> byteLength dv"
    using assms len by (simp_all add: dv_def wf_view_def)
  have p: "payload dv = toBufferEnd data"
    by (simp add: payload_def toBufferEnd_def dv_def)
  have n: "toBufferEnd data ! 2 = payload data ! 2"
    using assms by (simp add: toBufferEnd_def payload_def)
  have b0: "getUint8 dv 0 = Inr 0x10"
    using assms len by (simp add: getUint8_eq dv_def payload_nth [symmetric])
  have url: "decodeEddystoneUrl dv =
      Inr (schemePrefix (payload data ! 2) @ urlBody expansions (drop 3 (toBufferEnd data)))"
    using decodeUrlWith_spec [OF dv, of expansions] by (simp add: decodeEddystoneUrl_def p n)
  have frame: "eddystoneFrame data dv 0x10 =
      Inr (Some (EddystoneURL
        (schemePrefix (payload data ! 2) @ urlBody expansions (drop 3 (toBufferEnd data)))))"
    using assms(2) by (simp add: eddystoneFrame_def url)
  have "parseEddystone data =
      (if byteLength dv = 0 then Inr None else bindE (getUint8 dv 0) (eddystoneFrame data dv))"
    by (simp add: parseEddystone_def DataView_new_wf [OF assms(1)] dv_def)
  then show ?thesis
    using dv(2) by (simp add: b0 frame)
qed

lemma toBufferEnd_payload:
  "byteOffset data + byteLength data = length (buffer data) \<Longrightarrow> toBufferEnd data = payload data"
  by (simp add: toBufferEnd_def payload_def)

text \<open>
  C7. Decoding a URL frame of at least three bytes gives the prefix of the scheme code at
  offset 2 (\<open>http://www.\<close>, \<open>https://www.\<close>, \<open>http://\<close>, \<open>https://\<close> for 0 to 3,
  nothing for a code from 4 on) followed by the text of the bytes from offset 3, where a
  byte below the length of the expansion table stands for its table entry. This holds for
  the table of the current revision and for the table of the first one, and the payload of
  Example 2 decodes to \<open>http://www.example.com/\<close>.
\<close>

theorem url_decoding:
  assumes "wf_view dv" and "3 \<le> byteLength dv"
  shows "decodeEddystoneUrl dv =
        Inr (schemePrefix (payload dv ! 2) @ urlBody expansions (drop 3 (payload dv)))
    \<and> decodeEddystoneUrl_v1 dv =
        Inr (schemePrefix (payload dv ! 2) @ urlBody expansions_v1 (drop 3 (payload dv)))
    \<and> decodeEddystoneUrl (view_of example2) = Inr ''http://www.example.com/''
    \<and> decodeEddystoneUrl_v1 (view_of example2) = Inr ''http://www.example.com/''"
proof -
  have "decodeEddystoneUrl_v1 (view_of example2) = Inr ''http://www.example.com/''"
    by (simp add: example2_def getUint8_eq decodeEddystoneUrl_v1_def decodeUrlWith_def
        schemes_def expansions_v1_def urlLoop.simps fromCharCode_def) code_simp
  then show ?thesis
    using assms
    by (simp add: decodeEddystoneUrl_def decodeEddystoneUrl_v1_def decodeUrlWith_spec
        decodeEddystoneUrl_example2 [unfolded decodeEddystoneUrl_def])
qed

theorem url_decoding_witness:
  "wf_view (view_of [0x10, 0xEB, 0x07, 0x61, 0x62, 0x0A, 0x78])
   \<and> 3 \<le> byteLength (view_of [0x10, 0xEB, 0x07, 0x61, 0x62, 0x0A, 0x78])
   \<and> decodeEddystoneUrl (view_of [0x10, 0xEB, 0x07, 0x61, 0x62, 0x0A, 0x78]) = Inr ''ab.net/x''
   \<and> decodeEddystoneUrl_v1 (view_of [0x10, 0xEB, 0x07, 0x61, 0x62, 0x0A, 0x78]) = Inr ''ab.netx''
   \<and> decodeEddystoneUrl (view_of [0x10, 0xEB, 0x03, 0x61, 0x01]) = Inr ''https://a.org/''"
proof -
  have "urlBody expansions [0x61, 0x62, 0x0A, 0x78] = ''ab.net/x''"
    "urlBody expansions_v1 [0x61, 0x62, 0x0A, 0x78] = ''ab.netx''"
    "urlBody expansions [0x61, 0x01] = ''a.org/''"
    by (simp_all add: urlBody_def urlPiece_def expansions_def expansions_v1_def) code_simp+
  then show ?thesis
    using url_decoding [of "view_of [0x10, 0xEB, 0x07, 0x61, 0x62, 0x0A, 0x78]"]
      url_decoding [of "view_of [0x10, 0xEB, 0x03, 0x61, 0x01]"]
    by (simp add: schemePrefix_def)
qed

text \<open>
  C10. A byte at an index from 3 on whose value is 14 or more contributes exactly one
  character to the decoded URL, the one whose code is the byte's value, between the text of
  the bytes before it and the text of the bytes after it; control characters and values
  from 128 on are not filtered.
\<close>

theorem literal_byte_verbatim:
  assumes "3 \<le> i" and "i < length p" and "14 \<le> unat (p ! i)"
  shows "decodeEddystoneUrl (view_of p) =
        Inr (schemePrefix (p ! 2) @ urlBody expansions (take (i - 3) (drop 3 p))
             @ [char_of (unat (p ! i))] @ urlBody expansions (drop (Suc i) p))
    \<and> decodeEddystoneUrl_v1 (view_of p) =
        Inr (schemePrefix (p ! 2) @ urlBody expansions_v1 (take (i - 3) (drop 3 p))
             @ [char_of (unat (p ! i))] @ urlBody expansions_v1 (drop (Suc i) p))
    \<and> of_char (char_of (unat (p ! i)) :: char) = unat (p ! i)"
proof -
  have split: "drop 3 p = take (i - 3) (drop 3 p) @ [p ! i] @ drop (Suc i) p"
  proof -
    have "drop 3 p = take (i - 3) (drop 3 p) @ drop (i - 3) (drop 3 p)"
      by (rule append_take_drop_id [symmetric])
    also have "drop (i - 3) (drop 3 p) = drop i p"
      using assms(1) by simp
    also have "drop i p = p ! i # drop (Suc i) p"
      using assms(2) by (simp add: Cons_nth_drop_Suc)
    finally show ?thesis by simp
  qed
  have body: "urlBody table (drop 3 p) =
      urlBody table (take (i - 3) (drop 3 p)) @ [char_of (unat (p ! i))]
        @ urlBody table (drop (Suc i) p)" if "length table = 14" for table
    using that assms(3)
    by (subst split) (simp add: urlBody_append urlBody_Cons urlPiece_def
        del: append_take_drop_id)
  have code: "of_char (char_of (unat (p ! i)) :: char) = unat (p ! i)"
    using unsigned_less [of "p ! i", where 'a = nat] by simp
  have len: "3 \<le> byteLength (view_of p)"
    using assms(1,2) by simp
  show ?thesis
    using body [of expansions] body [of expansions_v1] code
    by (simp add: decodeEddystoneUrl_def decodeEddystoneUrl_v1_def decodeUrlWith_spec [OF _ len])
qed

theorem literal_byte_verbatim_witness:
  "(3::nat) \<le> 4 \<and> 4 < length [0x10, 0xEB, 0x02, 0x61, 0x1F, 0xE9, 0x07 :: byte]
   \<and> 14 \<le> unat ([0x10, 0xEB, 0x02, 0x61, 0x1F, 0xE9, 0x07 :: byte] ! 4)
   \<and> decodeEddystoneUrl (view_of [0x10, 0xEB, 0x02, 0x61, 0x1F, 0xE9, 0x07]) =
       Inr (''http://a'' @ [CHR 0x1F] @ [CHR 0xE9] @ ''.com'')"
proof -
  have "urlBody expansions [0x61] = ''a''" "urlBody expansions [0xE9, 0x07] = CHR 0xE9 # ''.com''"
    "char_of (31 :: nat) = CHR 0x1F"
    by (simp_all add: urlBody_def urlPiece_def expansions_def) code_simp+
  then show ?thesis
    using literal_byte_verbatim [of 4 "[0x10, 0xEB, 0x02, 0x61, 0x1F, 0xE9, 0x07]"]
    by (simp add: schemePrefix_def)
qed

section \<open>Eddystone telemetry\<close>

lemma temperature_exact:
  assumes "- 128 \<le> t" and "t < 128" and "f < 256"
  shows "fadd (of_int t) (fdiv (of_nat f) 256) = of_int t + of_nat f / 256"
proof -
  have "\<bar>int f\<bar> < 2 ^ 53"
    using assms(3) by simp
  then have "fl (of_int (int f) / 256) = of_int (int f) / 256"
    by (rule fl_dyadic8)
  then have f: "fdiv (of_nat f) 256 = of_nat f / 256"
    by (simp add: fdiv_def)
  have "\<bar>256 * t + int f\<bar> < 2 ^ 53"
    using assms by simp
  then have "fl (of_int (256 * t + int f) / 256) = of_int (256 * t + int f) / 256"
    by (rule fl_dyadic8)
  moreover have "of_int (256 * t + int f) / 256 = (of_int t + of_nat f / 256 :: rat)"
    by simp
  ultimately have "fl (of_int t + of_nat f / 256) = of_int t + of_nat f / 256"
    by (simp only:)
  then show ?thesis
    by (simp only: fadd_def f)
qed

lemma eddystoneFrame_tlm:
  assumes "wf_view data" and "14 \<le> byteLength data"
  shows "eddystoneFrame data
      \<lparr>buffer = buffer data, byteOffset = byteOffset data,
       byteLength = length (buffer data) - byteOffset data\<rparr> 0x20
    = Inr (Some (tlmOf (payload data)))"
proof -
  have len: "14 \<le> length (buffer data) - byteOffset data"
    using assms by (simp add: wf_view_def)
  have nth: "payload data ! i = byteAt data i" if "i < 14" for i
    using that assms by (simp add: payload_nth)
  show ?thesis
    using assms(2) len
    by (simp add: eddystoneFrame_def getUint16_eq getInt8_eq getUint8_eq getUint32_eq
        temperature_exact [OF sint_byte_range unat_byte_less]
        toFixed_tenths [OF be32_less, unfolded One_nat_def] tlmOf_def nth
        del: add_2_eq_Suc add_2_eq_Suc' of_nat_unat of_int_sint)
qed

lemma parseEddystone_tlm:
  assumes "wf_view data" and "14 \<le> byteLength data" and "payload data ! 0 = 0x20"
  shows "parseEddystone data = Inr (Some (tlmOf (payload data)))"
    and "parseEddystone_v2 data = Inr (Some (tlmOf (payload data)))"
proof -
  have len: "14 \<le> length (buffer data) - byteOffset data"
    using assms by (simp add: wf_view_def)
  have b0: "unat (byteAt data 0) = 0x20"
    using assms by (simp add: payload_nth [symmetric])
  show "parseEddystone data = Inr (Some (tlmOf (payload data)))"
    using len b0
    by (simp add: parseEddystone_def DataView_new_wf [OF assms(1)] getUint8_eq
        eddystoneFrame_tlm [OF assms(1,2), simplified])
  show "parseEddystone_v2 data = Inr (Some (tlmOf (payload data)))"
    using len b0
    by (simp add: parseEddystone_v2_def DataView_new_wf [OF assms(1)] getUint8_eq
        eddystoneFrame_tlm [OF assms(1,2), simplified])
qed

lemma toFixed_samples:
  "toFixed 2 (43 / 2) = ''21.50''" "toFixed 2 (- (3 / 4)) = ''-0.75''"
  by code_simp+

lemma tlmOf_example3: "tlmOf example3 = EddystoneTLM 3000 ''21.50'' 100 ''3600.0''"
  by (simp add: tlmOf_def example3_def be16_def be32_def toFixed_samples fixed1_def
      decimal.simps digitChar_def)

lemma tlmOf_tlmInBuffer:
  "tlmOf (payload tlmInBuffer) = EddystoneTLM 3100 ''-0.75'' 65536 ''429496729.5''"
  by (simp add: tlmOf_def payload_def tlmInBuffer_def be16_def be32_def toFixed_samples
      fixed1_def decimal.simps digitChar_def)

text \<open>
  C6. For a payload of at least 14 bytes whose first byte is \<open>0x20\<close>, the Eddystone
  decoder (current and intermediate revision) returns the big-endian battery voltage of
  bytes 2 and 3, the temperature, which is the signed byte at offset 4 plus the 256th part
  of the byte at offset 5, formatted to two decimal places, the big-endian packet count of
  bytes 6 to 9, and the uptime, which is a tenth of the big-endian count of bytes 10 to 13,
  formatted to one decimal place. The rounding of the floating-point sum and quotient
  does not show in the formatted text. The payload of Example 3 yields 3000, \<open>21.50\<close>,
  100 and \<open>3600.0\<close>.
\<close>

theorem tlm_decoding:
  assumes "wf_view data" and "14 \<le> byteLength data" and "payload data ! 0 = 0x20"
  shows "parseEddystone data = Inr (Some (tlmOf (payload data)))
    \<and> parseEddystone_v2 data = Inr (Some (tlmOf (payload data)))
    \<and> parseEddystone (view_of example3)
        = Inr (Some (EddystoneTLM 3000 ''21.50'' 100 ''3600.0''))"
proof -
  have "parseEddystone (view_of example3) = Inr (Some (tlmOf example3))"
    using parseEddystone_tlm(1) [of "view_of example3"] by (simp add: example3_def)
  then show ?thesis
    using parseEddystone_tlm [OF assms] by (simp add: tlmOf_example3)
qed

theorem tlm_decoding_witness:
  "wf_view tlmInBuffer \<and> 14 \<le> byteLength tlmInBuffer \<and> payload tlmInBuffer ! 0 = 0x20
   \<and> parseEddystone tlmInBuffer
       = Inr (Some (EddystoneTLM 3100 ''-0.75'' 65536 ''429496729.5''))"
proof -
  have w: "wf_view tlmInBuffer" "14 \<le> byteLength tlmInBuffer" "payload tlmInBuffer ! 0 = 0x20"
    by (simp_all add: wf_view_def payload_def tlmInBuffer_def)
  show ?thesis
    using tlm_decoding [OF w] by (simp add: w tlmOf_tlmInBuffer)
qed

section \<open>RuuviTag\<close>

text \<open>
  What the RuuviTag decoder does on a payload that is not empty: a payload of at least 24
  bytes that starts with 5 is decoded, any other gives no result. The literals
  \<open>0.005\<close> and \<open>0.0025\<close> are not doubles, so the products carry a rounding error
  that can show at two decimal places: the raw temperatures 1 and 3 (exactly 0.005 and
  0.015 degrees) are both printed as \<open>0.01\<close>. The payload of Example 4 is printed as the
  specification says.
\<close>

lemma pressure_text:
  assumes "p < 2 ^ 16"
  shows "toFixed 2 (fdiv (fadd (of_nat p) 50000) 100) = fixed2 (p + 50000)"
proof -
  have "\<bar>int (p + 50000)\<bar> < 2 ^ 53"
    using assms by simp
  then have "fl (of_int (int (p + 50000))) = of_int (int (p + 50000))"
    by (rule fl_integer)
  then have "fadd (of_nat p) 50000 = of_nat (p + 50000)"
    by (simp add: fadd_def)
  moreover have "p + 50000 < 2 ^ 32"
    using assms by simp
  ultimately show ?thesis
    by (simp only: toFixed_hundredths)
qed

lemma parseRuuviTag_decodes:
  assumes "wf_view data" and "24 \<le> byteLength data" and "payload data ! 0 = 0x05"
  shows "parseRuuviTag data = Inr (Some (ruuviOf (payload data)))"
proof -
  have len: "24 \<le> length (buffer data) - byteOffset data"
    using assms by (simp add: wf_view_def)
  have nth: "payload data ! i = byteAt data i" if "i < 24" for i
    using that assms by (simp add: payload_nth)
  have b0: "unat (byteAt data 0) = 0x05"
    using assms by (simp add: payload_nth [symmetric])
  show ?thesis
    using assms(2) len b0
    by (simp add: parseRuuviTag_def DataView_new_wf [OF assms(1)] getUint8_eq getUint16_eq
        getInt16_eq pressure_text [OF be16_less] ruuviOf_def nth drop_bit_eq_div
        del: add_2_eq_Suc add_2_eq_Suc' of_nat_unat of_int_sint One_nat_def)
qed

lemma parseRuuviTag_no_result:
  assumes "wf_view data" and "0 < byteLength data"
    and "payload data ! 0 \<noteq> 0x05 \<or> byteLength data < 24"
  shows "parseRuuviTag data = Inr None"
proof -
  have len: "0 < length (buffer data) - byteOffset data"
    using assms by (simp add: wf_view_def)
  have b0: "(unat (byteAt data 0) = 0x05) = (payload data ! 0 = 0x05)"
    using assms by (simp add: payload_nth unat_byte_eq)
  show ?thesis
    using assms(3) len
    by (auto simp: parseRuuviTag_def DataView_new_wf [OF assms(1)] getUint8_eq b0)
qed

lemma parseRuuviTag_raises:
  assumes "wf_view data"
  shows "(parseRuuviTag data = Inl RangeError) = (length (buffer data) = byteOffset data)"
proof (cases "length (buffer data) = byteOffset data")
  case True
  then show ?thesis
    by (simp add: parseRuuviTag_def DataView_new_wf [OF assms] getUint8_eq)
next
  case False
  then have len: "0 < length (buffer data) - byteOffset data"
    using assms by (simp add: wf_view_def)
  have w: "i + 2 \<le> length (buffer data) - byteOffset data" if "i + 2 \<le> byteLength data" for i
    using that assms by (simp add: wf_view_def)
  have "\<exists>r. parseRuuviTag data = Inr r"
    using len w [of 1] w [of 3] w [of 5] w [of 7]
    by (simp add: parseRuuviTag_def DataView_new_wf [OF assms] getUint8_eq getUint16_eq
        getInt16_eq del: add_2_eq_Suc add_2_eq_Suc')
  with False show ?thesis by auto
qed

lemma lit_values: "lit_0_005 = 5764607523034235 / 2 ^ 60" "lit_0_0025 = 5764607523034235 / 2 ^ 61"
  by code_simp+

lemma fmul_samples:
  "fmul 400 lit_0_005 = 2" "fmul 20000 lit_0_0025 = 50"
  "fmul 1 lit_0_005 = 5764607523034235 / 2 ^ 60"
  "fmul 3 lit_0_005 = 8646911284551352 / 2 ^ 59"
  by code_simp+

lemma ruuvi_samples:
  "toFixed 2 (fmul 400 lit_0_005) = ''2.00''" "toFixed 2 (fmul 20000 lit_0_0025) = ''50.00''"
  "toFixed 2 (fmul 1 lit_0_005) = ''0.01''" "toFixed 2 (fmul 3 lit_0_005) = ''0.01''"
proof -
  show "toFixed 2 (fmul 400 lit_0_005) = ''2.00''"
    using toFixed2_near [of 2 200]
    by (simp add: fmul_samples fixed2_def decimal.simps digitChar_def)
  show "toFixed 2 (fmul 20000 lit_0_0025) = ''50.00''"
    using toFixed2_near [of 50 5000]
    by (simp add: fmul_samples fixed2_def decimal.simps digitChar_def)
  show "toFixed 2 (fmul 1 lit_0_005) = ''0.01''"
    using toFixed2_near [of "5764607523034235 / 2 ^ 60" 1]
    by (simp add: fmul_samples fixed2_def decimal.simps digitChar_def)
  show "toFixed 2 (fmul 3 lit_0_005) = ''0.01''"
    using toFixed2_near [of "8646911284551352 / 2 ^ 59" 1]
    by (simp add: fmul_samples fixed2_def decimal.simps digitChar_def)
qed

lemma ruuviOf_example4: "ruuviOf example4 = RuuviTag ''2.00'' ''50.00'' ''550.00'' 1600"
  by (simp add: ruuviOf_def example4_def be16_def signed16_def ruuvi_samples fixed2_def
      decimal.simps digitChar_def)

lemma parseRuuviTag_example4:
  "parseRuuviTag (view_of example4) = Inr (Some (RuuviTag ''2.00'' ''50.00'' ''550.00'' 1600))"
  using parseRuuviTag_decodes [of "view_of example4"]
  by (simp add: ruuviOf_example4) (simp add: example4_def)

text \<open>
  C5. The RuuviTag decoder returns temperature, humidity, pressure and battery voltage for
  a payload of at least 24 bytes whose first byte is 5, and no result when the first byte
  is not 5 or the payload is shorter than 24 bytes. On the empty payload, which is shorter
  than 24 bytes, the code returns nothing: it raises \<open>RangeError\<close>.
\<close>

theorem ruuvi_empty_raises: "parseRuuviTag (view_of []) = Inl RangeError"
  by (simp add: parseRuuviTag_def getUint8_def)

section \<open>Totality of the decoders\<close>

text \<open>
  Where the decoders are total. The Eddystone decoder of the current revision returns on
  every view; the iBeacon branch of the classification returns on every view, since
  \<open>parseIBeacon\<close> is only called behind the length check; the Eddystone decoder of the
  intermediate revision and the RuuviTag decoder raise exactly when no byte follows the
  start of the view.
\<close>

lemma eddystoneFrame_total:
  assumes "wf_view data" and "0 < length (buffer data) - byteOffset data"
  shows "\<exists>r. eddystoneFrame data
      \<lparr>buffer = buffer data, byteOffset = byteOffset data,
       byteLength = length (buffer data) - byteOffset data\<rparr> frameType = Inr r"
proof -
  define dv where "dv = \<lparr>buffer = buffer data, byteOffset = byteOffset data,
      byteLength = length (buffer data) - byteOffset data\<rparr>"
  have dv: "wf_view dv" "buffer dv = buffer data" "byteOffset dv = byteOffset data"
    "byteLength dv = length (buffer data) - byteOffset data"
    using assms by (simp_all add: dv_def wf_view_def)
  have w: "i \<le> byteLength dv" if "i \<le> byteLength data" for i
    using that assms by (simp add: dv wf_view_def)
  have a: "byteOffset data + i \<le> length (buffer data)" if "i \<le> byteLength data" for i
    using that assms by (simp add: wf_view_def)
  have url: "\<exists>u. decodeEddystoneUrl dv = Inr u" if "4 \<le> byteLength data"
    using decodeUrlWith_spec [OF dv(1), of expansions] w [of 3] that
    by (simp add: decodeEddystoneUrl_def)
  have uid: "\<exists>r. bindE (Uint8Array_new (buffer dv) (byteOffset dv + 2) 10) (\<lambda>namespaceBytes.
      bindE (Uint8Array_new (buffer dv) (byteOffset dv + 12) 6) (\<lambda>instanceBytes.
      Inr (Some (EddystoneUID (bytesToHex namespaceBytes) (bytesToHex instanceBytes))))) = Inr r"
    if "18 \<le> byteLength data"
    using a [of 12] a [of 18] that by (simp add: Uint8Array_new_def dv add.assoc)
  have tlm: "\<exists>r. eddystoneFrame data dv 0x20 = Inr r" if "14 \<le> byteLength data"
    using eddystoneFrame_tlm [OF assms(1) that] by (simp add: dv_def)
  have "\<exists>r. eddystoneFrame data dv frameType = Inr r"
  proof -
    consider "frameType = 0x00" | "frameType = 0x10" | "frameType = 0x20"
      | "frameType \<noteq> 0x00" "frameType \<noteq> 0x10" "frameType \<noteq> 0x20"
      by blast
    then show ?thesis
    proof cases
      case 1
      then show ?thesis using uid by (cases "byteLength data < 18") (auto simp: eddystoneFrame_def)
    next
      case 2
      then show ?thesis
        using url by (cases "byteLength data < 4") (auto simp: eddystoneFrame_def)
    next
      case 3
      then show ?thesis
        using tlm by (cases "byteLength data < 14") (auto simp: eddystoneFrame_def)
    next
      case 4
      then show ?thesis by (simp add: eddystoneFrame_def)
    qed
  qed
  then show ?thesis by (simp add: dv_def)
qed

lemma parseEddystone_total:
  assumes "wf_view data"
  shows "\<exists>r. parseEddystone data = Inr r"
proof (cases "length (buffer data) - byteOffset data = 0")
  case True
  then show ?thesis
    by (simp add: parseEddystone_def DataView_new_wf [OF assms])
next
  case False
  then have "0 < length (buffer data) - byteOffset data" by simp
  then show ?thesis
    using eddystoneFrame_total [OF assms]
    by (simp add: parseEddystone_def DataView_new_wf [OF assms] getUint8_eq)
qed

lemma parseEddystone_v2_raises:
  assumes "wf_view data"
  shows "(parseEddystone_v2 data = Inl RangeError) = (length (buffer data) = byteOffset data)"
proof (cases "length (buffer data) = byteOffset data")
  case True
  then show ?thesis
    by (simp add: parseEddystone_v2_def DataView_new_wf [OF assms] getUint8_eq)
next
  case False
  then have "0 < length (buffer data) - byteOffset data"
    using assms by (simp add: wf_view_def)
  then have "\<exists>r. parseEddystone_v2 data = Inr r"
    using eddystoneFrame_total [OF assms]
    by (simp add: parseEddystone_v2_def DataView_new_wf [OF assms] getUint8_eq)
  with False show ?thesis by auto
qed

lemma iBeacon_branch_total:
  assumes "manufacturerData ev 0x004C = Some data" and "wf_view data"
  shows "\<exists>r. classify ev = Inr r"
  using assms
  by (simp add: classify_def isIBeacon_spec parseIBeacon_spec hasIBeaconPrefix_def)

text \<open>
  So the handler of the current revision raises on exactly one kind of advertisement:
  no key \<open>0x004C\<close>, no key \<open>0xFEAA\<close>, and under \<open>0x0499\<close> a view with no byte after its
  start.
\<close>

lemma classify_raises:
  assumes "\<And>k d. manufacturerData ev k = Some d \<Longrightarrow> wf_view d"
    and "\<And>k d. serviceData ev k = Some d \<Longrightarrow> wf_view d"
  shows "(classify ev = Inl RangeError) =
     (manufacturerData ev 0x004C = None \<and> serviceData ev 0xfeaa = None
      \<and> (\<exists>d. manufacturerData ev 0x0499 = Some d \<and> length (buffer d) = byteOffset d))"
proof (cases "manufacturerData ev 0x004C")
  case (Some d)
  then show ?thesis
    using iBeacon_branch_total [OF Some assms(1) [OF Some]] by auto
next
  case None
  note m = None
  show ?thesis
  proof (cases "serviceData ev 0xfeaa")
    case (Some d)
    then show ?thesis
      using parseEddystone_total [OF assms(2) [OF Some]] m by (auto simp: classify_def)
  next
    case None
    note s = None
    show ?thesis
    proof (cases "manufacturerData ev 0x0499")
      case (Some d)
      then show ?thesis
        using parseRuuviTag_raises [OF assms(1) [OF Some]] m s by (simp add: classify_def)
    next
      case None
      then show ?thesis
        using m s by (simp add: classify_def)
    qed
  qed
qed

text \<open>
  C1. Every format decoder is total: on every payload, the empty one included, it returns a
  record or no result and never raises. The code does not do that. In the current
  revision \<open>parseRuuviTag\<close> reads the format byte before any length check, so an
  advertisement whose manufacturer data for company \<open>0x0499\<close> is empty makes the handler
  raise \<open>RangeError\<close>; \<open>parseEddystone\<close> of the same revision has the guard
  (\<open>byteLength = 0\<close>) that \<open>parseRuuviTag\<close> lacks. In the two earlier revisions
  \<open>parseEddystone\<close> itself raises on the empty payload, and the first one also on a URL
  frame of fewer than three bytes.
\<close>

theorem decoders_raise:
  "handleAdvertisement initial emptyRuuviPacket = Inl RangeError
   \<and> handleAdvertisement_v2 initial emptyEddystonePacket = Inl RangeError
   \<and> handleAdvertisement_v1 initial emptyEddystonePacket = Inl RangeError
   \<and> parseEddystone_v1 (view_of [0x10, 0xEB]) = Inl RangeError"
  by (simp add: handleAdvertisement_def handleAdvertisement_v2_def handleAdvertisement_v1_def
      classify_def classify_v1_def classify_v2_def emptyRuuviPacket_def emptyEddystonePacket_def
      parseRuuviTag_def parseEddystone_v1_def parseEddystone_v2_def
      decodeEddystoneUrl_v1_def decodeUrlWith_def getUint8_def)

section \<open>Classification\<close>

text \<open>
  C2, as the specification states it. A packet whose manufacturer data holds key \<open>0x004C\<close>
  with a payload that is no iBeacon, and whose service data holds key \<open>0xFEAA\<close>, falls
  through to the Eddystone decoder. The code does not do that: the Eddystone branch is the
  \<open>else\<close> of the test for key \<open>0x004C\<close>, so such a packet is classified as nothing and
  the state is left as it was, in the current and in the intermediate revision, although
  the Eddystone payload on its own decodes to a URL.
\<close>

theorem apple_key_blocks_eddystone:
  "manufacturerData appleEddystonePacket 0x004C = Some (view_of [0x12, 0x19, 0x00, 0x01, 0x02])
   \<and> \<not> hasIBeaconPrefix (view_of [0x12, 0x19, 0x00, 0x01, 0x02])
   \<and> serviceData appleEddystonePacket 0xfeaa = Some (view_of example2)
   \<and> parseEddystone (view_of example2) = Inr (Some (EddystoneURL ''http://www.example.com/''))
   \<and> classify appleEddystonePacket = Inr None
   \<and> handleAdvertisement initial appleEddystonePacket = Inr initial
   \<and> parseEddystone_v2 (view_of example2) = Inr (Some (EddystoneURL ''http://www.example.com/''))
   \<and> classify_v2 appleEddystonePacket = Inr None
   \<and> handleAdvertisement_v2 initial appleEddystonePacket = Inr initial"
  by (simp add: parseEddystone_example2 parseEddystone_v2_example2 appleEddystonePacket_def
      hasIBeaconPrefix_def classify_def classify_v2_def isIBeacon_def handleAdvertisement_def
      handleAdvertisement_v2_def)

text \<open>
  C2, amended. The key \<open>0x004C\<close> alone decides: a packet whose manufacturer data holds it
  with a payload that is no iBeacon (shorter than 23 bytes, or not starting with
  \<open>0x02, 0x15\<close>) is classified as nothing and leaves the state unchanged, whatever its
  service data holds; the payload under \<open>0xFEAA\<close> goes to the Eddystone decoder, whose
  result is the classification, exactly when the manufacturer data has no key \<open>0x004C\<close>.
\<close>

theorem apple_key_decides:
  "(manufacturerData ev 0x004C = Some data \<and> wf_view data \<and> \<not> hasIBeaconPrefix data \<longrightarrow>
      classify ev = Inr None \<and> handleAdvertisement s ev = Inr s
      \<and> classify_v2 ev = Inr None \<and> classify_v1 ev = Inr None)
   \<and> (manufacturerData ev 0x004C = None \<and> serviceData ev 0xfeaa = Some sd \<longrightarrow>
      classify ev = parseEddystone sd \<and> classify_v2 ev = parseEddystone_v2 sd
      \<and> classify_v1 ev = parseEddystone_v1 sd)"
  by (simp add: classify_def classify_v2_def classify_v1_def isIBeacon_spec
      handleAdvertisement_def)

theorem apple_key_decides_witness:
  "manufacturerData appleEddystonePacket 0x004C = Some (view_of [0x12, 0x19, 0x00, 0x01, 0x02])
   \<and> wf_view (view_of [0x12, 0x19, 0x00, 0x01, 0x02])
   \<and> \<not> hasIBeaconPrefix (view_of [0x12, 0x19, 0x00, 0x01, 0x02])
   \<and> classify appleEddystonePacket = Inr None
   \<and> manufacturerData (appleEddystonePacket\<lparr>manufacturerData := Map.empty\<rparr>) 0x004C = None
   \<and> serviceData (appleEddystonePacket\<lparr>manufacturerData := Map.empty\<rparr>) 0xfeaa
        = Some (view_of example2)
   \<and> classify (appleEddystonePacket\<lparr>manufacturerData := Map.empty\<rparr>)
        = Inr (Some (EddystoneURL ''http://www.example.com/''))"
  using apple_key_decides [of appleEddystonePacket "view_of [0x12, 0x19, 0x00, 0x01, 0x02]"
      initial "view_of example2"]
    apple_key_decides [of "appleEddystonePacket\<lparr>manufacturerData := Map.empty\<rparr>"
      "view_of []" initial "view_of example2"]
  by (simp add: appleEddystonePacket_def hasIBeaconPrefix_def parseEddystone_example2)

text \<open>
  C8, as the specification states it. A packet that matches none of the first three rules
  and whose service data holds one of the keys \<open>0x180F\<close>, \<open>0x181A\<close>, \<open>0x180D\<close> is
  classified as the announcement of the first of them. By the specification rule 1 matches
  only when the payload under \<open>0x004C\<close> decodes as an iBeacon, so a packet with a payload
  there that is no iBeacon, without the keys \<open>0xFEAA\<close> and \<open>0x0499\<close>, matches none of
  the three rules. The code does not announce its battery service: the fall-back is in the
  \<open>else\<close> of the test for key \<open>0x004C\<close>, so the packet is classified as nothing and the
  state is left as it was.
\<close>

theorem apple_key_blocks_gatt:
  "manufacturerData appleBatteryPacket 0x004C = Some (view_of [0x12, 0x19, 0x00, 0x01, 0x02])
   \<and> \<not> hasIBeaconPrefix (view_of [0x12, 0x19, 0x00, 0x01, 0x02])
   \<and> serviceData appleBatteryPacket 0xfeaa = None
   \<and> manufacturerData appleBatteryPacket 0x0499 = None
   \<and> serviceData appleBatteryPacket 0x180F = Some (view_of [0x64])
   \<and> firstAnnounced appleBatteryPacket = Some (GattService ''Batteriedienst (0x180F)'')
   \<and> classify appleBatteryPacket = Inr None
   \<and> handleAdvertisement initial appleBatteryPacket = Inr initial"
  by (simp add: appleBatteryPacket_def hasIBeaconPrefix_def firstAnnounced_def gattPriority_def
      classify_def isIBeacon_def handleAdvertisement_def)

text \<open>
  C8, amended. A packet with none of the keys \<open>0x004C\<close>, \<open>0xFEAA\<close> and \<open>0x0499\<close> is
  classified as the announcement of the first service, in the order \<open>0x180F\<close>,
  \<open>0x181A\<close>, \<open>0x180D\<close>, whose key its service data holds, however many of the three it
  holds; with none of them it is classified as nothing. A packet whose manufacturer data
  holds key \<open>0x004C\<close> with a payload that is no iBeacon is classified as nothing, whatever
  service keys it holds.
\<close>

theorem gatt_fallback_priority:
  "(manufacturerData ev 0x004C = None \<and> serviceData ev 0xfeaa = None
      \<and> manufacturerData ev 0x0499 = None \<longrightarrow>
      classify ev = Inr (firstAnnounced ev)
      \<and> (serviceData ev 0x180F \<noteq> None \<longrightarrow>
            classify ev = Inr (Some (GattService ''Batteriedienst (0x180F)'')))
      \<and> (serviceData ev 0x180F = None \<and> serviceData ev 0x181A \<noteq> None \<longrightarrow>
            classify ev = Inr (Some (GattService ''Umgebungssensor (0x181A)'')))
      \<and> (serviceData ev 0x180F = None \<and> serviceData ev 0x181A = None
            \<and> serviceData ev 0x180D \<noteq> None \<longrightarrow>
            classify ev = Inr (Some (GattService ''Herzfrequenzmesser (0x180D)'')))
      \<and> (serviceData ev 0x180F = None \<and> serviceData ev 0x181A = None
            \<and> serviceData ev 0x180D = None \<longrightarrow> classify ev = Inr None))
   \<and> (manufacturerData ev 0x004C = Some data \<and> wf_view data \<and> \<not> hasIBeaconPrefix data
      \<longrightarrow> classify ev = Inr None)"
  by (simp add: classify_def firstAnnounced_def gattPriority_def isIBeacon_spec)

theorem gatt_fallback_priority_witness:
  "manufacturerData twoServicesPacket 0x004C = None
   \<and> serviceData twoServicesPacket 0xfeaa = None
   \<and> manufacturerData twoServicesPacket 0x0499 = None
   \<and> serviceData twoServicesPacket 0x180F = None
   \<and> serviceData twoServicesPacket 0x181A = Some (view_of [])
   \<and> serviceData twoServicesPacket 0x180D = Some (view_of [0x06, 0x48])
   \<and> classify twoServicesPacket = Inr (Some (GattService ''Umgebungssensor (0x181A)''))
   \<and> manufacturerData appleBatteryPacket 0x004C = Some (view_of [0x12, 0x19, 0x00, 0x01, 0x02])
   \<and> wf_view (view_of [0x12, 0x19, 0x00, 0x01, 0x02])
   \<and> \<not> hasIBeaconPrefix (view_of [0x12, 0x19, 0x00, 0x01, 0x02])
   \<and> classify appleBatteryPacket = Inr None"
  using gatt_fallback_priority [of twoServicesPacket "view_of []"]
    gatt_fallback_priority [of appleBatteryPacket "view_of [0x12, 0x19, 0x00, 0x01, 0x02]"]
  by (auto simp: twoServicesPacket_def appleBatteryPacket_def hasIBeaconPrefix_def)

section \<open>The device registry\<close>

lemma successful_iff: "successful r = (\<exists>b. r = Inr (Some b))"
  by (auto simp: successful_def split: sum.splits option.splits)

lemma updateUI_known:
  "discoveredDevices s (deviceId ev) = Some existing \<Longrightarrow>
   updateUI s ev b =
     s\<lparr>discoveredDevices := (discoveredDevices s)(deviceId ev \<mapsto>
         existing\<lparr>cardElement := (cardElement existing)\<lparr>cardRssi := rssi ev\<rparr>\<rparr>)\<rparr>"
  by (simp add: updateUI_def updateBeaconCardRSSI_def)

lemma updateUI_new:
  "discoveredDevices s (deviceId ev) = None \<Longrightarrow>
   updateUI s ev b =
     s\<lparr>resultsDiv := deviceId ev # resultsDiv s,
       discoveredDevices := (discoveredDevices s)(deviceId ev \<mapsto>
         \<lparr>device = deviceId ev,
          cardElement = \<lparr>cardBeacon = b, cardRssi = rssi ev, cardDeviceId = deviceId ev\<rparr>,
          type = beaconType b\<rparr>)\<rparr>"
  by (simp add: updateUI_def createBeaconCard_def)

lemma dom_updateUI:
  "dom (discoveredDevices (updateUI s ev b)) = insert (deviceId ev) (dom (discoveredDevices s))"
  by (cases "discoveredDevices s (deviceId ev)") (auto simp: updateUI_known updateUI_new)

lemma handler_classified:
  assumes "(handler, classifier) \<in> set revisions" and "classifier ev = Inr (Some b)"
  shows "handler s ev = Inr (updateUI s ev b)"
  using assms
  by (auto simp: revisions_def handleAdvertisement_def handleAdvertisement_v2_def
      handleAdvertisement_v1_def)

lemma handler_unclassified:
  assumes "(handler, classifier) \<in> set revisions" and "\<not> successful (classifier ev)"
  shows "handler s ev = Inr s \<or> handler s ev = Inl RangeError"
proof -
  have e: "x = RangeError" for x :: error by (cases x) simp
  show ?thesis
    using assms
    by (auto simp: revisions_def handleAdvertisement_def handleAdvertisement_v2_def
        handleAdvertisement_v1_def successful_def bindE_def e
        split: sum.splits option.splits)
qed

lemma deliver_step:
  assumes "(handler, classifier) \<in> set revisions"
  shows "deliver handler s ev =
     (case classifier ev of Inr (Some b) \<Rightarrow> updateUI s ev b | _ \<Rightarrow> s)"
proof (cases "successful (classifier ev)")
  case True
  then obtain b where "classifier ev = Inr (Some b)" by (auto simp: successful_iff)
  then show ?thesis using handler_classified [OF assms] by (simp add: deliver_def)
next
  case False
  then have "deliver handler s ev = s"
    using handler_unclassified [OF assms False, of s] by (auto simp: deliver_def)
  with False show ?thesis by (auto simp: successful_def split: sum.splits option.splits)
qed

lemma dom_deliver:
  assumes "(handler, classifier) \<in> set revisions"
  shows "dom (discoveredDevices (deliver handler s ev)) =
     (if successful (classifier ev) then insert (deviceId ev) (dom (discoveredDevices s))
      else dom (discoveredDevices s))"
  by (auto simp: deliver_step [OF assms] successful_def dom_updateUI
      split: sum.splits option.splits)

lemma dom_foldl_deliver:
  assumes "(handler, classifier) \<in> set revisions"
  shows "dom (discoveredDevices (foldl (deliver handler) s evs)) =
     dom (discoveredDevices s) \<union> classifiedIds classifier evs"
proof (induction evs arbitrary: s)
  case Nil
  show ?case by (simp add: classifiedIds_def)
next
  case (Cons ev evs)
  show ?case
    by (simp add: Cons.IH dom_deliver [OF assms]) (auto simp: classifiedIds_def)
qed

lemma classify_batteryPacket:
  "classify batteryPacket = Inr (Some (GattService ''Batteriedienst (0x180F)''))"
  by (simp add: classify_def batteryPacket_def)

lemma classify_urlPacket:
  "classify urlPacket = Inr (Some (EddystoneURL ''http://www.example.com/''))"
  by (simp add: classify_def urlPacket_def parseEddystone_example2)

lemma classify_emptyRuuviPacket: "classify emptyRuuviPacket = Inl RangeError"
  by (simp add: classify_def emptyRuuviPacket_def parseRuuviTag_def getUint8_eq)

lemma classify_appleEddystonePacket: "classify appleEddystonePacket = Inr None"
  by (simp add: classify_def appleEddystonePacket_def isIBeacon_def)

lemma classify_twoServicesPacket:
  "classify twoServicesPacket = Inr (Some (GattService ''Umgebungssensor (0x181A)''))"
  by (simp add: classify_def twoServicesPacket_def)

lemma classifiedIds_Nil: "classifiedIds classifier [] = {}"
  by (simp add: classifiedIds_def)

lemma classifiedIds_Cons:
  "classifiedIds classifier (ev # evs) =
     (if successful (classifier ev) then insert (deviceId ev) (classifiedIds classifier evs)
      else classifiedIds classifier evs)"
  by (auto simp: classifiedIds_def)

lemma packet_ids:
  "deviceId batteryPacket = ''dev1''" "deviceId urlPacket = ''dev1''"
  "deviceId twoServicesPacket = ''band''" "rssi urlPacket = - 40" "rssi batteryPacket = - 81"
  by (simp_all add: batteryPacket_def urlPacket_def twoServicesPacket_def)

text \<open>
  C3. When the device of a successfully classified packet already has an entry, the handler
  changes nothing but the signal strength shown on the device's card: the entry keeps its
  \<open>type\<close> and its decoded beacon, whatever the new packet was classified as, no other
  entry changes and no card is added. This holds in the three revisions.
\<close>

theorem rssi_only_update:
  assumes "(handler, classifier) \<in> set revisions"
    and "discoveredDevices s (deviceId ev) = Some existing"
    and "classifier ev = Inr (Some b)"
  shows "\<exists>s'. handler s ev = Inr s'
    \<and> discoveredDevices s' = (discoveredDevices s)(deviceId ev \<mapsto>
          existing\<lparr>cardElement := (cardElement existing)\<lparr>cardRssi := rssi ev\<rparr>\<rparr>)
    \<and> resultsDiv s' = resultsDiv s
    \<and> type (the (discoveredDevices s' (deviceId ev))) = type existing
    \<and> cardBeacon (cardElement (the (discoveredDevices s' (deviceId ev))))
        = cardBeacon (cardElement existing)
    \<and> cardRssi (cardElement (the (discoveredDevices s' (deviceId ev)))) = rssi ev"
  by (simp add: handler_classified [OF assms(1) assms(3)] updateUI_known [OF assms(2)])

theorem rssi_only_update_witness:
  "(handleAdvertisement, classify) \<in> set revisions
   \<and> classify batteryPacket = Inr (Some (GattService ''Batteriedienst (0x180F)''))
   \<and> classify urlPacket = Inr (Some (EddystoneURL ''http://www.example.com/''))
   \<and> deviceId urlPacket = deviceId batteryPacket
   \<and> beaconType (EddystoneURL ''http://www.example.com/'') \<noteq> ''GATT-Dienst''
   \<and> type (the (discoveredDevices (session handleAdvertisement [batteryPacket]) ''dev1''))
       = ''GATT-Dienst''
   \<and> type (the (discoveredDevices (session handleAdvertisement [batteryPacket, urlPacket])
         ''dev1'')) = ''GATT-Dienst''
   \<and> cardRssi (cardElement (the (discoveredDevices
         (session handleAdvertisement [batteryPacket, urlPacket]) ''dev1''))) = - 40"
proof -
  have r: "(handleAdvertisement, classify) \<in> set revisions"
    by (simp add: revisions_def)
  define s1 where "s1 = session handleAdvertisement [batteryPacket]"
  define e1 where "e1 = \<lparr>device = ''dev1'',
      cardElement = \<lparr>cardBeacon = GattService ''Batteriedienst (0x180F)'', cardRssi = - 81,
        cardDeviceId = ''dev1''\<rparr>,
      type = ''GATT-Dienst''\<rparr>"
  have s1: "discoveredDevices s1 (deviceId urlPacket) = Some e1"
    by (simp add: s1_def e1_def session_def deliver_def handleAdvertisement_def
        classify_batteryPacket updateUI_def initial_def createBeaconCard_def packet_ids)
  have s2: "session handleAdvertisement [batteryPacket, urlPacket]
      = deliver handleAdvertisement s1 urlPacket"
    by (simp add: session_def s1_def)
  show ?thesis
    using rssi_only_update [OF r s1 classify_urlPacket] s1
    by (auto simp: r classify_batteryPacket classify_urlPacket s2 deliver_def packet_ids e1_def
        simp flip: s1_def)
qed

text \<open>
  C9. At every point of a session (after any list of delivered events) the keys of the
  registry are the device identifiers classified successfully so far, so its size is their
  number. One more event adds exactly one entry when it is classified successfully and its
  device is new, and leaves the set of keys as it is otherwise; no entry is ever removed
  (the program has no operation that clears the registry). This holds in the three
  revisions.
\<close>

theorem registry_size:
  assumes "(handler, classifier) \<in> set revisions"
  shows "dom (discoveredDevices (session handler evs)) = classifiedIds classifier evs
    \<and> card (dom (discoveredDevices (session handler evs))) = card (classifiedIds classifier evs)
    \<and> dom (discoveredDevices (session handler (evs @ [ev]))) =
        (if successful (classifier ev)
         then insert (deviceId ev) (dom (discoveredDevices (session handler evs)))
         else dom (discoveredDevices (session handler evs)))
    \<and> card (dom (discoveredDevices (session handler (evs @ [ev])))) =
        (if successful (classifier ev) \<and> deviceId ev \<notin> classifiedIds classifier evs
         then card (dom (discoveredDevices (session handler evs))) + 1
         else card (dom (discoveredDevices (session handler evs))))"
proof -
  have d: "dom (discoveredDevices (session handler es)) = classifiedIds classifier es" for es
    by (simp add: session_def dom_foldl_deliver [OF assms] initial_def)
  have f: "finite (classifiedIds classifier evs)"
    by (simp add: classifiedIds_def)
  have s: "classifiedIds classifier (evs @ [ev]) =
      (if successful (classifier ev) then insert (deviceId ev) (classifiedIds classifier evs)
       else classifiedIds classifier evs)"
    by (auto simp: classifiedIds_def)
  show ?thesis
    using f by (auto simp: d s insert_absorb)
qed

theorem registry_size_witness:
  "(handleAdvertisement, classify) \<in> set revisions
   \<and> dom (discoveredDevices (session handleAdvertisement
        [batteryPacket, urlPacket, emptyRuuviPacket, appleEddystonePacket, twoServicesPacket]))
       = {''dev1'', ''band''}
   \<and> card (dom (discoveredDevices (session handleAdvertisement
        [batteryPacket, urlPacket, emptyRuuviPacket, appleEddystonePacket, twoServicesPacket])))
       = 2"
proof -
  have r: "(handleAdvertisement, classify) \<in> set revisions"
    by (simp add: revisions_def)
  have c: "classifiedIds classify
      [batteryPacket, urlPacket, emptyRuuviPacket, appleEddystonePacket, twoServicesPacket]
      = {''dev1'', ''band''}"
    by (simp add: classifiedIds_Cons classifiedIds_Nil successful_def classify_batteryPacket
        classify_urlPacket classify_emptyRuuviPacket classify_appleEddystonePacket
        classify_twoServicesPacket packet_ids)
  show ?thesis
    using registry_size [OF r,
        of "[batteryPacket, urlPacket, emptyRuuviPacket, appleEddystonePacket, twoServicesPacket]"]
    by (simp add: r c)
qed

end
